theory Spec2Isabelle
  imports Main "HOL-Library.AList"
begin

section \<open>Python strings\<close>

text \<open>
  Python \<^verbatim>\<open>str\<close> values are modelled as \<^typ>\<open>string\<close>; a character stands for a code
  point below 256. On that range \<open>isspace\<close>, \<open>isdigit\<close>, \<open>lower\<close> and \<open>strip\<close> are
  Python's \<^verbatim>\<open>str.isspace\<close>, \<^verbatim>\<open>str.isdigit\<close>, \<^verbatim>\<open>str.lower\<close> and \<^verbatim>\<open>str.strip\<close>;
  \<open>is_upper\<close>, \<open>is_lower\<close> and \<open>is_alpha\<close> are the classes \<^verbatim>\<open>[A-Z]\<close>, \<^verbatim>\<open>[a-z]\<close> and
  \<^verbatim>\<open>[A-Za-z]\<close> of the regular expressions. \<^verbatim>\<open>str.title\<close> does not stay in the range
  (the capital of U+00FF is U+0178), so the record builder takes it as a parameter.
\<close>

definition isspace :: "char \<Rightarrow> bool" where
  "isspace c = (let n = (of_char c :: nat) in
     (9 \<le> n \<and> n \<le> 13) \<or> (28 \<le> n \<and> n \<le> 32) \<or> n = 133 \<or> n = 160)"

definition isdigit :: "char \<Rightarrow> bool" where
  "isdigit c = (let n = (of_char c :: nat) in
     (48 \<le> n \<and> n \<le> 57) \<or> n = 178 \<or> n = 179 \<or> n = 185)"

definition ascii_uppercase :: string where
  "ascii_uppercase = ''ABCDEFGHIJKLMNOPQRSTUVWXYZ''"

definition ascii_lowercase :: string where
  "ascii_lowercase = ''abcdefghijklmnopqrstuvwxyz''"

definition is_upper :: "char \<Rightarrow> bool" where
  "is_upper c = (c \<in> set ascii_uppercase)"

definition is_lower :: "char \<Rightarrow> bool" where
  "is_lower c = (c \<in> set ascii_lowercase)"

definition is_alpha :: "char \<Rightarrow> bool" where
  "is_alpha c = (is_upper c \<or> is_lower c)"

text \<open>
  The letters that \<^verbatim>\<open>str.lower\<close> changes below code point 256: \<^verbatim>\<open>A\<close> to \<^verbatim>\<open>Z\<close> and the
  capital letters from U+00C0 to U+00DE (U+00D7 is the multiplication sign), each
  32 code points below its small letter.
\<close>

definition latin1_uppercase :: string where
  "latin1_uppercase =
     [CHR 0xC0, CHR 0xC1, CHR 0xC2, CHR 0xC3, CHR 0xC4, CHR 0xC5, CHR 0xC6, CHR 0xC7,
      CHR 0xC8, CHR 0xC9, CHR 0xCA, CHR 0xCB, CHR 0xCC, CHR 0xCD, CHR 0xCE, CHR 0xCF,
      CHR 0xD0, CHR 0xD1, CHR 0xD2, CHR 0xD3, CHR 0xD4, CHR 0xD5, CHR 0xD6, CHR 0xD8,
      CHR 0xD9, CHR 0xDA, CHR 0xDB, CHR 0xDC, CHR 0xDD, CHR 0xDE]"

definition latin1_lowercase :: string where
  "latin1_lowercase =
     [CHR 0xE0, CHR 0xE1, CHR 0xE2, CHR 0xE3, CHR 0xE4, CHR 0xE5, CHR 0xE6, CHR 0xE7,
      CHR 0xE8, CHR 0xE9, CHR 0xEA, CHR 0xEB, CHR 0xEC, CHR 0xED, CHR 0xEE, CHR 0xEF,
      CHR 0xF0, CHR 0xF1, CHR 0xF2, CHR 0xF3, CHR 0xF4, CHR 0xF5, CHR 0xF6, CHR 0xF8,
      CHR 0xF9, CHR 0xFA, CHR 0xFB, CHR 0xFC, CHR 0xFD, CHR 0xFE]"

definition to_lower :: "char \<Rightarrow> char" where
  "to_lower c =
     (case map_of (zip (ascii_uppercase @ latin1_uppercase) (ascii_lowercase @ latin1_lowercase)) c of
        Some d \<Rightarrow> d
      | None \<Rightarrow> c)"

definition lower :: "string \<Rightarrow> string" where
  "lower s = map to_lower s"

definition strip :: "string \<Rightarrow> string" where
  "strip s = rev (dropWhile isspace (rev (dropWhile isspace s)))"

text \<open>\<^verbatim>\<open>sub in s\<close>: \<open>sub\<close> occurs in \<open>s\<close> as a contiguous run.\<close>

fun contains :: "string \<Rightarrow> string \<Rightarrow> bool" where
  "contains [] sub = (sub = [])"
| "contains (c # cs) sub = (take (length sub) (c # cs) = sub \<or> contains cs sub)"

definition startswith :: "string \<Rightarrow> string \<Rightarrow> bool" where
  "startswith s p = (take (length p) s = p)"

section \<open>The browser\<close>

text \<open>
  What Selenium answers is data of the model. A lookup either raises or returns
  the matching elements in document order; an element has a text, attributes and
  lookups of its own. The driver's current page is the document element.
\<close>

datatype exn = NoSuchElementException | WebDriverException

datatype locator = By_CSS_SELECTOR | By_CLASS_NAME | By_ID | By_XPATH | By_TAG_NAME

datatype element = Element
  (el_text: "exn + string")
  (get_attribute: "string \<Rightarrow> exn + string option")
  (find_elements: "locator \<Rightarrow> string \<Rightarrow> exn + element list")

text \<open>\<^verbatim>\<open>find_element\<close> is the first match, and raises when there is none.\<close>

definition find_element :: "element \<Rightarrow> locator \<Rightarrow> string \<Rightarrow> exn + element" where
  "find_element ctx b selector =
     (case find_elements ctx b selector of
        Inl e \<Rightarrow> Inl e
      | Inr [] \<Rightarrow> Inl NoSuchElementException
      | Inr (x # _) \<Rightarrow> Inr x)"

section \<open>Field extraction primitives\<close>

definition by_of_method :: "string \<Rightarrow> locator" where
  "by_of_method method =
     (if method = ''css'' then By_CSS_SELECTOR
      else if method = ''class'' then By_CLASS_NAME
      else if method = ''id'' then By_ID
      else if method = ''xpath'' then By_XPATH
      else By_CSS_SELECTOR)"

definition safe_find_element_text :: "element \<Rightarrow> string \<Rightarrow> string \<Rightarrow> string" where
  "safe_find_element_text driver selector method =
     (case find_element driver (by_of_method method) selector of
        Inl _ \<Rightarrow> ''''
      | Inr element \<Rightarrow> (case el_text element of Inl _ \<Rightarrow> '''' | Inr t \<Rightarrow> strip t))"

definition safe_find_element_attribute ::
  "element \<Rightarrow> string \<Rightarrow> string \<Rightarrow> string \<Rightarrow> string" where
  "safe_find_element_attribute driver selector attribute method =
     (case find_element driver (by_of_method method) selector of
        Inl _ \<Rightarrow> ''''
      | Inr element \<Rightarrow>
          (case get_attribute element attribute of
             Inl _ \<Rightarrow> ''''
           | Inr None \<Rightarrow> ''''
           | Inr (Some v) \<Rightarrow> v))"

section \<open>Regular expressions and string methods used by the record builder\<close>

text \<open>
  \<^verbatim>\<open>re.match\<close> on a sequence of greedy quantified character classes, each one a
  group: a class with its least and greatest number of repetitions. The longest
  run is tried first and shortened one character at a time while the rest of the
  pattern fails, which is the order of Python's backtracking matcher.
\<close>

type_synonym re_item = "(char \<Rightarrow> bool) \<times> nat \<times> nat option"

fun first_some :: "('a \<Rightarrow> 'b option) \<Rightarrow> 'a list \<Rightarrow> 'b option" where
  "first_some f [] = None"
| "first_some f (x # xs) = (case f x of Some y \<Rightarrow> Some y | None \<Rightarrow> first_some f xs)"

primrec re_match :: "re_item list \<Rightarrow> string \<Rightarrow> string list option" where
  "re_match [] s = Some []"
| "re_match (it # rest) s =
     (case it of (cls, lo, hi) \<Rightarrow>
        (let n = length (takeWhile cls s);
             m = (case hi of None \<Rightarrow> n | Some h \<Rightarrow> min h n)
         in first_some (\<lambda>k. map_option ((#) (take k s)) (re_match rest (drop k s)))
              (rev [lo ..< Suc m])))"

definition re_digit :: "char \<Rightarrow> bool" where
  "re_digit c = (let n = (of_char c :: nat) in 48 \<le> n \<and> n \<le> 57)"

definition title_re :: "re_item list" where
  "title_re =
     [(re_digit, 4, Some 4),
      (isspace, 1, None),
      (is_alpha, 1, None),
      (isspace, 1, None),
      (\<lambda>c. is_alpha c \<or> re_digit c \<or> c = CHR ''-'' \<or> isspace c, 1, None)]"

text \<open>\<^verbatim>\<open>re.sub(r'[()]', '', s)\<close>\<close>

definition sub_parens :: "string \<Rightarrow> string" where
  "sub_parens s = filter (\<lambda>c. c \<noteq> CHR ''('' \<and> c \<noteq> CHR '')'') s"

text \<open>
  \<^verbatim>\<open>re.sub(r'google map.*$', '', s, flags=re.IGNORECASE)\<close>: the leftmost occurrence after
  which no newline comes before the end, a last newline apart, is cut off with
  what follows it (the last newline stays).
\<close>

fun sub_google_map :: "string \<Rightarrow> string" where
  "sub_google_map [] = []"
| "sub_google_map (c # cs) =
     (let r = drop 10 (c # cs) in
      if startswith (lower (c # cs)) ''google map'' \<and> CHR 0x0A \<notin> set (butlast r)
      then (if r \<noteq> [] \<and> last r = CHR 0x0A then [CHR 0x0A] else [])
      else c # sub_google_map cs)"

text \<open>\<^verbatim>\<open>s.split('/')[-1]\<close>\<close>

definition last_segment :: "string \<Rightarrow> string" where
  "last_segment s = rev (takeWhile (\<lambda>c. c \<noteq> CHR ''/'') (rev s))"

text \<open>\<^verbatim>\<open>s.replace(old, new)\<close> for a non-empty \<open>old\<close>, as at both call sites.\<close>

function replace :: "string \<Rightarrow> string \<Rightarrow> string \<Rightarrow> string" where
  "replace [] old new = []"
| "replace (c # cs) old new =
     (if old \<noteq> [] \<and> take (length old) (c # cs) = old
      then new @ replace (drop (length old) (c # cs)) old new
      else c # replace cs old new)"
  by pat_completeness auto
termination
  by (relation "measure (\<lambda>(s, old, new). length s)") (auto simp: neq_Nil_conv)

text \<open>\<^verbatim>\<open>" - ".join(parts)\<close>\<close>

fun join :: "string \<Rightarrow> string list \<Rightarrow> string" where
  "join sep [] = []"
| "join sep [x] = x"
| "join sep (x # y # ys) = x @ sep @ join sep (y # ys)"

section \<open>Listing records\<close>

text \<open>
  A listing is a Python dict from field names to values, kept as an association
  list in insertion order: \<^verbatim>\<open>d[k] = v\<close> is \<^const>\<open>AList.update\<close>, \<^verbatim>\<open>d[k]\<close> is
  \<^const>\<open>map_of\<close>. A value is a string or \<^verbatim>\<open>None\<close>.
\<close>

datatype pyval = PyNone | PyStr string

type_synonym listing = "(string \<times> pyval) list"

definition set_item :: "listing \<Rightarrow> string \<Rightarrow> string \<Rightarrow> listing" where
  "set_item d k v = AList.update k (PyStr v) d"

text \<open>Truth value of \<^verbatim>\<open>d[k]\<close> in a condition; a missing key is not true.\<close>

definition truthy :: "listing \<Rightarrow> string \<Rightarrow> bool" where
  "truthy d k = (case map_of d k of Some (PyStr v) \<Rightarrow> v \<noteq> '''' | _ \<Rightarrow> False)"

text \<open>Every value of the dict is a string.\<close>

definition str_valued :: "listing \<Rightarrow> bool" where
  "str_valued d = (\<forall>x\<in>snd ` set d. \<exists>s. x = PyStr s)"

section \<open>Craigslist: the detail record builder\<close>

text \<open>The keys of the dict literal of \<^verbatim>\<open>extract_listing_details\<close>, in its order.\<close>

definition listing_fields :: "string list" where
  "listing_fields =
     [''url'', ''title'', ''price'', ''year'', ''make'', ''model'', ''vin'', ''mileage'',
      ''cylinders'', ''drive'', ''fuel'', ''color'', ''transmission'', ''type'', ''location'',
      ''google_maps_link'', ''date_posted'', ''date_scraped'', ''source'']"

definition new_listing :: "string \<Rightarrow> string \<Rightarrow> listing" where
  "new_listing listing_url now =
     [(''url'', PyStr listing_url),
      (''title'', PyStr ''''),
      (''price'', PyStr ''''),
      (''year'', PyStr ''''),
      (''make'', PyStr ''''),
      (''model'', PyStr ''''),
      (''vin'', PyStr ''''),
      (''mileage'', PyStr ''''),
      (''cylinders'', PyStr ''''),
      (''drive'', PyStr ''''),
      (''fuel'', PyStr ''''),
      (''color'', PyStr ''''),
      (''transmission'', PyStr ''''),
      (''type'', PyStr ''''),
      (''location'', PyStr ''''),
      (''google_maps_link'', PyStr ''''),
      (''date_posted'', PyStr ''''),
      (''date_scraped'', PyStr now),
      (''source'', PyStr ''Craigslist'')]"

text \<open>
  \<^verbatim>\<open>re.match(r'(\d{4})\s+([A-Za-z]+)\s+([A-Za-z0-9\-\s]+)', title)\<close> with its groups
  1, 2 and 3.
\<close>

definition title_match :: "string \<Rightarrow> (string \<times> string \<times> string) option" where
  "title_match title =
     (case re_match title_re title of
        Some [g1, _, g2, _, g3] \<Rightarrow> Some (g1, g2, g3)
      | _ \<Rightarrow> None)"

definition location_parts :: "string \<Rightarrow> string \<Rightarrow> string list" where
  "location_parts primary_location address =
     (let parts = (if primary_location \<noteq> '''' then [strip (sub_parens primary_location)] else [])
      in if address \<noteq> '''' then
           (let address_clean = strip (sub_google_map address)
            in if address_clean \<noteq> '''' \<and> address_clean \<notin> set parts
               then parts @ [address_clean] else parts)
         else parts)"

text \<open>The four title lookups, each tried only while the title is still empty.\<close>

definition find_title :: "element \<Rightarrow> string" where
  "find_title driver =
     (let title = safe_find_element_text driver ''#titletextonly'' ''id'';
          title = (if title = '''' then
             safe_find_element_text driver ''.postingtitletext .titletextonly'' ''css''
             else title);
          title = (if title = '''' then
             safe_find_element_text driver ''h1 .titletextonly'' ''css'' else title);
          title = (if title = '''' then
             safe_find_element_text driver ''.postingtitle'' ''css'' else title)
      in title)"

text \<open>The four lookups of the posting date, in the same way.\<close>

definition find_date_posted :: "element \<Rightarrow> string" where
  "find_date_posted driver =
     (let date_posted =
            safe_find_element_attribute driver ''time.date.timeago'' ''datetime'' ''css'';
          date_posted = (if date_posted = '''' then
             safe_find_element_attribute driver ''time.date.timeago'' ''title'' ''css''
             else date_posted);
          date_posted = (if date_posted = '''' then
             safe_find_element_text driver ''time.date.timeago'' ''css'' else date_posted);
          date_posted = (if date_posted = '''' then
             safe_find_element_text driver
               ''.postinginfos .postinginfo:first-child .date'' ''css''
             else date_posted)
      in date_posted)"

text \<open>
  The builder fills the dict block by block, as the source does under its
  comments. First the title: a title found on the page is stored and parsed, a
  missing one is made from the last segment of the URL. \<open>str_title\<close> is
  \<^verbatim>\<open>str.title\<close>.
\<close>

definition set_title ::
  "(string \<Rightarrow> string) \<Rightarrow> string \<Rightarrow> string \<Rightarrow> listing \<Rightarrow> listing" where
  "set_title str_title title listing_url listing_data =
     (if title \<noteq> '''' then
        (let listing_data = set_item listing_data ''title'' title
         in case title_match title of
              Some (g1, g2, g3) \<Rightarrow>
                set_item (set_item (set_item listing_data ''year'' g1) ''make'' g2)
                  ''model'' (strip g3)
            | None \<Rightarrow> listing_data)
      else
        set_item listing_data ''title''
          (str_title (replace (replace (last_segment listing_url) ''.html'' '''') ''-'' '' '')))"

text \<open>\<^verbatim>\<open># Extract other details\<close>\<close>

definition set_details :: "element \<Rightarrow> listing \<Rightarrow> listing" where
  "set_details driver listing_data =
     (let listing_data = set_item listing_data ''price''
            (safe_find_element_text driver ''.price'' ''css'');
          listing_data = set_item listing_data ''vin''
            (safe_find_element_text driver ''.attr.auto_vin .valu'' ''css'');
          listing_data = set_item listing_data ''mileage''
            (safe_find_element_text driver ''.attr.auto_miles .valu'' ''css'');
          listing_data = set_item listing_data ''cylinders''
            (safe_find_element_text driver ''.attr.auto_cylinders .valu'' ''css'');
          listing_data = set_item listing_data ''drive''
            (safe_find_element_text driver ''.attr.auto_drivetrain .valu'' ''css'');
          listing_data = set_item listing_data ''fuel''
            (safe_find_element_text driver ''.attr.auto_fuel_type .valu'' ''css'');
          listing_data = set_item listing_data ''color''
            (safe_find_element_text driver ''.attr.auto_paint .valu'' ''css'');
          listing_data = set_item listing_data ''transmission''
            (safe_find_element_text driver ''.attr.auto_transmission .valu'' ''css'');
          listing_data = set_item listing_data ''type''
            (safe_find_element_text driver ''.attr.auto_bodytype .valu'' ''css'')
      in listing_data)"

text \<open>The fields that \<^verbatim>\<open># Extract other details\<close> fills, each with its selector.\<close>

definition detail_selectors :: "(string \<times> string) list" where
  "detail_selectors =
     [(''price'', ''.price''),
      (''vin'', ''.attr.auto_vin .valu''),
      (''mileage'', ''.attr.auto_miles .valu''),
      (''cylinders'', ''.attr.auto_cylinders .valu''),
      (''drive'', ''.attr.auto_drivetrain .valu''),
      (''fuel'', ''.attr.auto_fuel_type .valu''),
      (''color'', ''.attr.auto_paint .valu''),
      (''transmission'', ''.attr.auto_transmission .valu''),
      (''type'', ''.attr.auto_bodytype .valu'')]"

text \<open>\<^verbatim>\<open># Extract location\<close>\<close>

definition set_location :: "element \<Rightarrow> listing \<Rightarrow> listing" where
  "set_location driver listing_data =
     (let parts = location_parts
            (safe_find_element_text driver ''.postingtitletext small'' ''css'')
            (safe_find_element_text driver ''.mapaddress'' ''css'')
      in if parts \<noteq> [] then set_item listing_data ''location'' (join '' - '' parts)
         else listing_data)"

text \<open>\<^verbatim>\<open># Extract Google Maps link\<close>\<close>

definition set_google_maps_link :: "element \<Rightarrow> listing \<Rightarrow> listing" where
  "set_google_maps_link driver listing_data =
     set_item listing_data ''google_maps_link''
       (safe_find_element_attribute driver ''.mapaddress a'' ''href'' ''css'')"

text \<open>\<^verbatim>\<open># Extract posting date\<close>\<close>

definition set_date_posted :: "element \<Rightarrow> listing \<Rightarrow> listing" where
  "set_date_posted driver listing_data =
     (let date_posted = find_date_posted driver
      in if date_posted \<noteq> '''' then set_item listing_data ''date_posted'' date_posted
         else listing_data)"

text \<open>
  \<open>get\<close> is \<^verbatim>\<open>driver.get\<close>: the page a URL loads, or the exception raised;
  \<open>str_title\<close> is \<^verbatim>\<open>str.title\<close>; \<open>now\<close> is the formatted \<^verbatim>\<open>datetime.now()\<close>. An
  exception inside the builder gives \<^verbatim>\<open>None\<close>.
\<close>

definition extract_listing_details ::
  "(string \<Rightarrow> exn + element) \<Rightarrow> (string \<Rightarrow> string) \<Rightarrow> string \<Rightarrow> string \<Rightarrow>
   listing option" where
  "extract_listing_details get str_title now listing_url =
     (case get listing_url of
        Inl _ \<Rightarrow> None
      | Inr driver \<Rightarrow>
          (let listing_data = new_listing listing_url now;
               listing_data = set_title str_title (find_title driver) listing_url listing_data;
               listing_data = set_details driver listing_data;
               listing_data = set_location driver listing_data;
               listing_data = set_google_maps_link driver listing_data;
               listing_data = set_date_posted driver listing_data
           in Some listing_data))"

section \<open>Craigslist: the listing URL discoverer\<close>

text \<open>\<^verbatim>\<open>if href and '/d/' in href\<close>\<close>

definition is_detail_href :: "string option \<Rightarrow> bool" where
  "is_detail_href href = (case href of None \<Rightarrow> False | Some h \<Rightarrow> h \<noteq> '''' \<and> contains h ''/d/'')"

text \<open>
  The links of one result node: the first one whose resolved URL is new is the
  node's URL (\<^verbatim>\<open>append\<close>, then \<^verbatim>\<open>break\<close>). An exception leaves the node.
  \<open>urljoin\<close> is \<^verbatim>\<open>urllib.parse.urljoin\<close>.
\<close>

fun first_new_link ::
  "(string \<Rightarrow> string \<Rightarrow> string) \<Rightarrow> string \<Rightarrow> string list \<Rightarrow> element list \<Rightarrow> exn + string option"
where
  "first_new_link urljoin search_url listing_urls [] = Inr None"
| "first_new_link urljoin search_url listing_urls (link # links) =
     (case get_attribute link ''href'' of
        Inl e \<Rightarrow> Inl e
      | Inr href \<Rightarrow>
          if is_detail_href href then
            (let full_url = urljoin search_url (the href)
             in if full_url \<notin> set listing_urls then Inr (Some full_url)
                else first_new_link urljoin search_url listing_urls links)
          else first_new_link urljoin search_url listing_urls links)"

fun scan_result_nodes ::
  "(string \<Rightarrow> string \<Rightarrow> string) \<Rightarrow> string \<Rightarrow> string list \<Rightarrow> element list \<Rightarrow> string list"
where
  "scan_result_nodes urljoin search_url listing_urls [] = listing_urls"
| "scan_result_nodes urljoin search_url listing_urls (node # nodes) =
     (case find_elements node By_CSS_SELECTOR ''a.cl-app-anchor'' of
        Inl _ \<Rightarrow> scan_result_nodes urljoin search_url listing_urls nodes
      | Inr link_elements \<Rightarrow>
          (case first_new_link urljoin search_url listing_urls link_elements of
             Inr (Some full_url) \<Rightarrow>
               scan_result_nodes urljoin search_url (listing_urls @ [full_url]) nodes
           | _ \<Rightarrow> scan_result_nodes urljoin search_url listing_urls nodes))"

text \<open>The loop of the second and of the third strategy: the first anchor of each container.\<close>

fun scan_containers ::
  "(string \<Rightarrow> string \<Rightarrow> string) \<Rightarrow> string \<Rightarrow> string list \<Rightarrow> element list \<Rightarrow> string list"
where
  "scan_containers urljoin search_url listing_urls [] = listing_urls"
| "scan_containers urljoin search_url listing_urls (result # results) =
     (case find_element result By_CSS_SELECTOR ''a'' of
        Inl _ \<Rightarrow> scan_containers urljoin search_url listing_urls results
      | Inr link \<Rightarrow>
          (case get_attribute link ''href'' of
             Inl _ \<Rightarrow> scan_containers urljoin search_url listing_urls results
           | Inr href \<Rightarrow>
               if is_detail_href href then
                 (let full_url = urljoin search_url (the href)
                  in if full_url \<notin> set listing_urls
                     then scan_containers urljoin search_url (listing_urls @ [full_url]) results
                     else scan_containers urljoin search_url listing_urls results)
               else scan_containers urljoin search_url listing_urls results))"

text \<open>
  The discovery proper, on the page as it is once the readiness wait is over.
  Beside the URLs it returns the document lookups it made, in order. An
  exception of a document lookup ends the discovery with no URL.
\<close>

type_synonym lookup = "locator \<times> string"

definition extract_listing_urls ::
  "(string \<Rightarrow> string \<Rightarrow> string) \<Rightarrow> element \<Rightarrow> string \<Rightarrow> string list \<times> lookup list" where
  "extract_listing_urls urljoin driver search_url =
     (let q1 = (By_CLASS_NAME, ''result-node'');
          q2 = (By_CSS_SELECTOR, ''.cl-search-result'');
          q3 = (By_CSS_SELECTOR, ''[data-pid]'')
      in case find_elements driver (fst q1) (snd q1) of
           Inl _ \<Rightarrow> ([], [q1])
         | Inr result_nodes \<Rightarrow>
             (let listing_urls = scan_result_nodes urljoin search_url [] result_nodes
              in if length listing_urls = 0 then
                   (case find_elements driver (fst q2) (snd q2) of
                      Inl _ \<Rightarrow> ([], [q1, q2])
                    | Inr search_results \<Rightarrow>
                        (let listing_urls =
                               scan_containers urljoin search_url listing_urls search_results
                         in if length listing_urls = 0 then
                              (case find_elements driver (fst q3) (snd q3) of
                                 Inl _ \<Rightarrow> ([], [q1, q2, q3])
                               | Inr pid_elements \<Rightarrow>
                                   (scan_containers urljoin search_url listing_urls pid_elements,
                                    [q1, q2, q3]))
                            else (listing_urls, [q1, q2])))
                 else (listing_urls, [q1])))"

text \<open>
  For the statements about duplicates: a list with only the first occurrence of
  each of its elements, and the URL that a container of the second or third
  strategy points at.
\<close>

fun first_seen :: "'a list \<Rightarrow> 'a list" where
  "first_seen [] = []"
| "first_seen (x # xs) = x # filter (\<lambda>y. y \<noteq> x) (first_seen xs)"

definition container_url ::
  "(string \<Rightarrow> string \<Rightarrow> string) \<Rightarrow> string \<Rightarrow> element \<Rightarrow> string option" where
  "container_url urljoin search_url result =
     (case find_element result By_CSS_SELECTOR ''a'' of
        Inl _ \<Rightarrow> None
      | Inr link \<Rightarrow>
          (case get_attribute link ''href'' of
             Inl _ \<Rightarrow> None
           | Inr href \<Rightarrow>
               if is_detail_href href then Some (urljoin search_url (the href)) else None))"

section \<open>Craigslist: enumerate, then visit\<close>

text \<open>
  The world the pipeline runs in: whether the driver starts, what a URL loads,
  \<^verbatim>\<open>urljoin\<close>, \<^verbatim>\<open>str.title\<close>, and the clock read while listing \<open>i\<close> is built.
\<close>

record craigslist_env =
  setup_driver_ok :: bool
  driver_get :: "string \<Rightarrow> exn + element"
  url_join :: "string \<Rightarrow> string \<Rightarrow> string"
  title_of :: "string \<Rightarrow> string"
  clock :: "nat \<Rightarrow> string"



text \<open>One turn of the loop over \<^verbatim>\<open>enumerate(listing_urls)\<close>.\<close>

definition visit_step :: "craigslist_env \<Rightarrow> listing list \<Rightarrow> nat \<times> string \<Rightarrow> listing list" where
  "visit_step env all_listings iu =
     (case extract_listing_details (driver_get env) (title_of env) (clock env (fst iu)) (snd iu) of
        None \<Rightarrow> all_listings
      | Some listing_data \<Rightarrow>
          if listing_data \<noteq> [] \<and>
             (truthy listing_data ''title'' \<or> truthy listing_data ''price'' \<or>
              truthy listing_data ''vin'')
          then all_listings @ [listing_data]
          else all_listings)"

definition visit_listings :: "craigslist_env \<Rightarrow> string list \<Rightarrow> listing list" where
  "visit_listings env listing_urls =
     foldl (visit_step env) [] (zip [0 ..< length listing_urls] listing_urls)"


section \<open>Facebook: counting listings and scrolling\<close>

definition item_link_selector :: string where
  "item_link_selector = ''a[href*='/marketplace/item/']''"

definition container_selectors :: "string list" where
  "container_selectors =
     [''a[href*='/marketplace/item/']'',
      ''[data-testid*='marketplace']'',
      ''div[data-testid='marketplace-grid'] a'',
      ''div[role='main'] a[href*='/marketplace/item/']'']"

text \<open>
  The greatest number of elements any of the selectors finds. A selector whose
  lookup raises is passed over; if the first lookup of all raises, the count is 0.
\<close>

definition get_listing_count :: "element \<Rightarrow> nat" where
  "get_listing_count driver =
     (case find_elements driver By_CSS_SELECTOR item_link_selector of
        Inl _ \<Rightarrow> 0
      | Inr marketplace_links \<Rightarrow>
          foldl (\<lambda>max_count selector.
                   case find_elements driver By_CSS_SELECTOR selector of
                     Inl _ \<Rightarrow> max_count
                   | Inr elements \<Rightarrow> max max_count (length elements))
                0 container_selectors)"

text \<open>
  The state of \<^verbatim>\<open>wait_and_scroll\<close>. Beside the two variables of the source it
  counts what the loop has done: \<open>polls\<close>, the calls of the count function;
  \<open>scrolls\<close>, the scroll scripts run; \<open>attempt\<close>, the turns of the loop that ran to
  their end. When the loop is left by \<^verbatim>\<open>break\<close>, \<open>attempt\<close> is the value of the
  variable \<^verbatim>\<open>attempt\<close> of the source; when \<^verbatim>\<open>range(scroll_attempts)\<close> is used up, it
  is the length of that range: \<^verbatim>\<open>scroll_attempts\<close>, one more than the last value of
  that variable, or 0 for a bound below 1, when the variable was never bound.
  \<open>stalled\<close> says that the loop was left by \<^verbatim>\<open>break\<close>.
\<close>

record scroll_state =
  polls :: nat
  scrolls :: nat
  attempt :: nat
  last_count :: int
  no_change_count :: nat
  stalled :: bool

definition scroll_start :: scroll_state where
  "scroll_start =
     \<lparr>polls = 0, scrolls = 0, attempt = 0, last_count = 0, no_change_count = 0, stalled = False\<rparr>"

text \<open>
  \<open>count_fn k\<close> is what call number \<open>k\<close> of \<^verbatim>\<open>get_listing_count\<close> returns, counted
  from the start of \<^verbatim>\<open>wait_and_scroll\<close>. The first argument of the loop is the number
  of turns \<^verbatim>\<open>range(scroll_attempts)\<close> has left. The scroll script and the delays
  that follow it change nothing the function reads, and are taken to return.
\<close>

fun scroll_loop :: "(nat \<Rightarrow> int) \<Rightarrow> nat \<Rightarrow> scroll_state \<Rightarrow> scroll_state" where
  "scroll_loop count_fn 0 st = st"
| "scroll_loop count_fn (Suc n) st =
     (let current_listings = count_fn (polls st);
          st = st\<lparr>polls := Suc (polls st)\<rparr>;
          changed = (current_listings \<noteq> last_count st);
          st = (if changed then st\<lparr>no_change_count := 0\<rparr>
                else st\<lparr>no_change_count := Suc (no_change_count st)\<rparr>)
      in if \<not> changed \<and> no_change_count st \<ge> 3 then st\<lparr>stalled := True\<rparr>
         else scroll_loop count_fn n
                (st\<lparr>last_count := current_listings,
                    scrolls := Suc (scrolls st),
                    attempt := Suc (attempt st)\<rparr>))"

definition wait_and_scroll :: "(nat \<Rightarrow> int) \<Rightarrow> int \<Rightarrow> int \<times> scroll_state" where
  "wait_and_scroll count_fn scroll_attempts =
     (let st = scroll_loop count_fn (nat scroll_attempts) scroll_start;
          final_count = count_fn (polls st)
      in (final_count, st\<lparr>polls := Suc (polls st)\<rparr>))"

section \<open>Facebook: bulk extraction\<close>

definition price_xpath1 :: string where
  "price_xpath1 =
     ''.//span[@dir='auto' and contains(@class, 'x193iq5w') and contains(text(), '$')]''"

definition price_xpath2 :: string where
  "price_xpath2 = ''.//span[@dir='auto'][contains(text(), '$')]''"

definition price_xpath3 :: string where
  "price_xpath3 = ''.//*[contains(text(), '$')]''"

definition location_xpath :: string where
  "location_xpath =
     ''.//*[contains(text(), ', ') and (contains(text(), 'OR') or contains(text(), 'WA') or contains(text(), 'CA') or contains(text(), 'ID') or contains(text(), 'NV'))]''"

definition mileage_xpath :: string where
  "mileage_xpath =
     ''.//*[contains(text(), 'mile') or contains(text(), 'Mile') or contains(text(), 'K mile')]''"

text \<open>The three price lookups: the next one only when the one before found nothing.\<close>

definition price_elements :: "element \<Rightarrow> exn + element list" where
  "price_elements link =
     (case find_elements link By_XPATH price_xpath1 of
        Inl e \<Rightarrow> Inl e
      | Inr es1 \<Rightarrow>
          if es1 = [] then
            (case find_elements link By_XPATH price_xpath2 of
               Inl e \<Rightarrow> Inl e
             | Inr es2 \<Rightarrow> if es2 = [] then find_elements link By_XPATH price_xpath3 else Inr es2)
          else Inr es1)"

text \<open>The first text that looks like a price, if the loop reaches one.\<close>

fun pick_price :: "element list \<Rightarrow> exn + string option" where
  "pick_price [] = Inr None"
| "pick_price (price_elem # rest) =
     (case el_text price_elem of
        Inl e \<Rightarrow> Inl e
      | Inr t \<Rightarrow>
          (let price_text = strip t
           in if contains price_text ''$'' \<and> length price_text < 30 \<and> length price_text > 1
              then (if startswith price_text ''$'' \<and> (\<exists>c \<in> set price_text. isdigit c)
                    then Inr (Some price_text) else pick_price rest)
              else pick_price rest))"

definition extract_price :: "element \<Rightarrow> listing \<Rightarrow> listing" where
  "extract_price link listing_data =
     (case price_elements link of
        Inl _ \<Rightarrow> listing_data
      | Inr es \<Rightarrow>
          (case pick_price es of
             Inr (Some price_text) \<Rightarrow> set_item listing_data ''price'' price_text
           | _ \<Rightarrow> listing_data))"

definition extract_title :: "element \<Rightarrow> listing \<Rightarrow> listing" where
  "extract_title link listing_data =
     (case find_elements link By_TAG_NAME ''img'' of
        Inr (img # _) \<Rightarrow>
          (case get_attribute img ''alt'' of
             Inr (Some alt) \<Rightarrow>
               if alt \<noteq> '''' then set_item listing_data ''title'' (strip alt) else listing_data
           | _ \<Rightarrow> listing_data)
      | _ \<Rightarrow> listing_data)"

text \<open>
  The first text with a comma and under 50 characters is the mileage when it
  mentions miles and the location otherwise.
\<close>

fun pick_location :: "element list \<Rightarrow> listing \<Rightarrow> exn + listing" where
  "pick_location [] listing_data = Inr listing_data"
| "pick_location (elem # rest) listing_data =
     (case el_text elem of
        Inl e \<Rightarrow> Inl e
      | Inr t \<Rightarrow>
          (let text = strip t
           in if contains text '', '' \<and> length text < 50 then
                (if contains (lower text) ''mile'' \<or> contains (lower text) ''k mile''
                 then Inr (set_item listing_data ''mileage'' text)
                 else Inr (set_item listing_data ''location'' text))
              else pick_location rest listing_data))"

fun pick_mileage :: "element list \<Rightarrow> exn + string option" where
  "pick_mileage [] = Inr None"
| "pick_mileage (elem # rest) =
     (case el_text elem of
        Inl e \<Rightarrow> Inl e
      | Inr t \<Rightarrow>
          (let mileage_text = strip t
           in if contains (lower mileage_text) ''mile'' \<and> length mileage_text < 30
              then Inr (Some mileage_text) else pick_mileage rest))"

definition extract_location_mileage :: "element \<Rightarrow> listing \<Rightarrow> listing" where
  "extract_location_mileage link listing_data =
     (case find_elements link By_XPATH location_xpath of
        Inl _ \<Rightarrow> listing_data
      | Inr text_elements \<Rightarrow>
          (case pick_location text_elements listing_data of
             Inl _ \<Rightarrow> listing_data
           | Inr listing_data \<Rightarrow>
               if map_of listing_data ''mileage'' = Some (PyStr ''N/A'') then
                 (case find_elements link By_XPATH mileage_xpath of
                    Inl _ \<Rightarrow> listing_data
                  | Inr mileage_elements \<Rightarrow>
                      (case pick_mileage mileage_elements of
                         Inr (Some mileage_text) \<Rightarrow> set_item listing_data ''mileage'' mileage_text
                       | _ \<Rightarrow> listing_data))
               else listing_data))"

text \<open>The value stored for an attribute that may be \<^verbatim>\<open>None\<close>.\<close>

definition pyval_of :: "string option \<Rightarrow> pyval" where
  "pyval_of a = (case a of None \<Rightarrow> PyNone | Some s \<Rightarrow> PyStr s)"


definition facebook_listing :: "string option \<Rightarrow> listing" where
  "facebook_listing url =
     [(''url'', pyval_of url),
      (''title'', PyStr ''N/A''),
      (''price'', PyStr ''N/A''),
      (''mileage'', PyStr ''N/A''),
      (''location'', PyStr ''N/A'')]"

definition build_listing :: "element \<Rightarrow> string option \<Rightarrow> listing" where
  "build_listing link url =
     extract_location_mileage link (extract_title link (extract_price link (facebook_listing url)))"

text \<open>
  The loop over the item links, with the set of URLs seen so far. A link whose
  \<^verbatim>\<open>href\<close> cannot be read is passed over.
\<close>

fun extract_links :: "string option set \<Rightarrow> element list \<Rightarrow> listing list" where
  "extract_links seen_urls [] = []"
| "extract_links seen_urls (link # links) =
     (case get_attribute link ''href'' of
        Inl _ \<Rightarrow> extract_links seen_urls links
      | Inr url \<Rightarrow>
          if url \<in> seen_urls then extract_links seen_urls links
          else build_listing link url # extract_links (insert url seen_urls) links)"

text \<open>For the statements about duplicates: the \<^verbatim>\<open>href\<close> of a link, when it can be read.\<close>

definition link_href :: "element \<Rightarrow> string option option" where
  "link_href link = (case get_attribute link ''href'' of Inl _ \<Rightarrow> None | Inr url \<Rightarrow> Some url)"

definition extract_all_listings :: "element \<Rightarrow> listing list" where
  "extract_all_listings driver =
     (case find_elements driver By_CSS_SELECTOR item_link_selector of
        Inl _ \<Rightarrow> []
      | Inr marketplace_links \<Rightarrow> extract_links {} marketplace_links)"

section \<open>Facebook: session replay, login and the run\<close>

text \<open>
  What one call of \<^verbatim>\<open>scrape_facebook_marketplace\<close> meets: whether the session file
  exists, whether a driver starts (by its \<^verbatim>\<open>headless\<close> flag), what \<^verbatim>\<open>load_session\<close>
  returns in it, whether \<^verbatim>\<open>driver.get\<close> returns, the document at each observation of
  the page, the two buttons, and the two entries of the Streamlit session state.
  The scraper is a new one, holding no driver, and a driver that does not start
  leaves none behind.
\<close>

record facebook_env =
  session_file_exists :: bool
  setup_facebook_driver_ok :: "bool \<Rightarrow> bool"
  load_session_ok :: "bool \<Rightarrow> bool"
  get_ok :: "string \<Rightarrow> bool"
  snapshots :: "nat \<Rightarrow> element"
  open_clicked :: bool
  continue_clicked :: bool
  fb_driver_ready :: bool
  fb_driver_instance :: bool

text \<open>The steps of a run that concern the session, in the order they happen.\<close>

datatype event =
    Setup_Driver bool
  | Load_Session
  | Get string
  | Count_Listings nat
  | Quit
  | Login_Required
  | Save_Session

datatype 'a flow = Returned "listing list" "event list" | Next 'a "event list"

text \<open>
  The replay of a stored session in a headless driver. It goes on with
  \<^verbatim>\<open>headless_success\<close>, whether a driver is held, and the number of observations made.
  A failed replay quits the driver it started.
\<close>

definition headless_replay :: "facebook_env \<Rightarrow> string \<Rightarrow> (bool \<times> bool \<times> nat) flow" where
  "headless_replay env marketplace_url =
     (if session_file_exists env then
        (if setup_facebook_driver_ok env True then
           (if load_session_ok env True then
              (if get_ok env marketplace_url then
                 (let test_count = get_listing_count (snapshots env 0);
                      ev = [Setup_Driver True, Load_Session, Get marketplace_url,
                            Count_Listings test_count]
                  in if test_count > 0 then Next (True, True, 1) ev
                     else Next (False, False, 1) (ev @ [Quit]))
               else Returned [] [Setup_Driver True, Load_Session, Get marketplace_url])
            else Next (False, False, 0) [Setup_Driver True, Load_Session, Quit])
         else Next (False, False, 0) [Setup_Driver True])
      else Next (False, False, 0) [])"

text \<open>
  The visible mode, entered with no driver: the login instructions and the two
  buttons. It goes on with whether a driver is held.
\<close>

definition visible_mode :: "facebook_env \<Rightarrow> string \<Rightarrow> event list \<Rightarrow> bool flow" where
  "visible_mode env marketplace_url ev0 =
     (let ev = ev0 @ [Login_Required];
          opened =
            (if open_clicked env then
               (if setup_facebook_driver_ok env False then
                  (let ev = ev @ [Setup_Driver False, Load_Session, Get ''https://www.facebook.com'']
                   in if get_ok env ''https://www.facebook.com''
                      then Next (True, True, True) ev else Returned [] ev)
                else Next (False, fb_driver_ready env, fb_driver_instance env)
                       (ev @ [Setup_Driver False]))
             else Next (False, fb_driver_ready env, fb_driver_instance env) ev)
      in case opened of
           Returned ls ev \<Rightarrow> Returned ls ev
         | Next (driver, ready, instance) ev \<Rightarrow>
             if ready then
               (if continue_clicked env then
                  (if instance then
                     (let ev = ev @ [Save_Session, Get marketplace_url]
                      in if get_ok env marketplace_url then Next True ev else Returned [] ev)
                   else Returned [] ev)
                else Next driver ev)
             else Returned [] ev)"

text \<open>
  After the login: the first counts, the scroll, the extraction. Observation
  \<open>k\<close> of the page reads \<open>snapshots env k\<close>.
\<close>

definition scroll_and_extract :: "facebook_env \<Rightarrow> nat \<Rightarrow> int \<Rightarrow> listing list" where
  "scroll_and_extract env observed max_scroll_attempts =
     (let initial_count = get_listing_count (snapshots env observed);
          observed = Suc observed;
          observed = (if initial_count = 0 then Suc observed else observed);
          count_fn = (\<lambda>k. int (get_listing_count (snapshots env (observed + k))));
          st = snd (wait_and_scroll count_fn max_scroll_attempts)
      in extract_all_listings (snapshots env (observed + polls st)))"

text \<open>
  Without a driver the scroll script or the extraction raises, and the run
  returns the empty list.
\<close>

definition scrape_facebook_marketplace ::
  "facebook_env \<Rightarrow> string \<Rightarrow> int \<Rightarrow> listing list \<times> event list" where
  "scrape_facebook_marketplace env marketplace_url max_scroll_attempts =
     (case headless_replay env marketplace_url of
        Returned ls ev \<Rightarrow> (ls, ev)
      | Next (headless_success, driver, observed) ev \<Rightarrow>
          (case (if \<not> headless_success then visible_mode env marketplace_url ev
                 else Next driver ev) of
             Returned ls ev \<Rightarrow> (ls, ev)
           | Next driver ev \<Rightarrow>
               (if driver then scroll_and_extract env observed max_scroll_attempts else [], ev)))"

section \<open>Example pages\<close>

definition text_element :: "string \<Rightarrow> element" where
  "text_element t = Element (Inr t) (\<lambda>_. Inr None) (\<lambda>_ _. Inr [])"

definition stale_element :: element where
  "stale_element = Element (Inl WebDriverException) (\<lambda>_. Inl WebDriverException) (\<lambda>_ _. Inr [])"

definition anchor_element :: "string \<Rightarrow> element" where
  "anchor_element h =
     Element (Inr '''') (\<lambda>a. if a = ''href'' then Inr (Some h) else Inr None) (\<lambda>_ _. Inr [])"

definition container :: "string \<Rightarrow> element list \<Rightarrow> element" where
  "container selector es =
     Element (Inr '''') (\<lambda>_. Inr None) (\<lambda>b s. if s = selector then Inr es else Inr [])"

definition ford_page :: element where
  "ford_page =
     Element (Inr '''') (\<lambda>_. Inr None)
       (\<lambda>b s. if b = By_ID \<and> s = ''#titletextonly'' then Inr [text_element '' 2021 Ford F-150 XLT '']
              else if b = By_CSS_SELECTOR \<and> s = ''.price'' then Inr [text_element ''$5,000'']
              else if b = By_CSS_SELECTOR \<and> s = ''.mapaddress a''
                then Inr [anchor_element ''https://maps.example/x'']
              else if b = By_CSS_SELECTOR \<and> s = ''.attr.auto_vin .valu'' then Inr [stale_element]
              else if b = By_CSS_SELECTOR \<and> s = ''.mapaddress'' then Inl WebDriverException
              else Inr [])"

definition deal_page :: element where
  "deal_page = container ''.postingtitle'' [text_element ''Great Deal Truck'']"

definition blank_page :: element where
  "blank_page = Element (Inr '''') (\<lambda>_. Inr None) (\<lambda>_ _. Inr [])"

text \<open>
  \<^verbatim>\<open>str.title\<close> on ASCII text, for the examples: the first letter of each run of
  letters in upper case, the other letters in lower case.
\<close>

definition ascii_to_upper :: "char \<Rightarrow> char" where
  "ascii_to_upper c =
     (case map_of (zip ascii_lowercase ascii_uppercase) c of Some d \<Rightarrow> d | None \<Rightarrow> c)"

fun ascii_title_from :: "bool \<Rightarrow> string \<Rightarrow> string" where
  "ascii_title_from prev [] = []"
| "ascii_title_from prev (c # cs) =
     (if is_alpha c then (if prev then to_lower c else ascii_to_upper c) # ascii_title_from True cs
      else c # ascii_title_from False cs)"

definition ascii_title :: "string \<Rightarrow> string" where
  "ascii_title s = ascii_title_from False s"

definition search_page :: element where
  "search_page =
     container ''result-node''
       [container ''a.cl-app-anchor''
          [anchor_element ''https://pdx.example/d/ford/1.html'',
           anchor_element ''https://pdx.example/d/other/9.html''],
        container ''a.cl-app-anchor''
          [anchor_element ''https://pdx.example/d/ford/1.html'',
           anchor_element ''https://pdx.example/d/deal/2.html'']]"

definition example_env :: craigslist_env where
  "example_env =
     \<lparr>setup_driver_ok = True,
      driver_get = (\<lambda>u. if u = ''https://pdx.example/d/ford/1.html'' then Inr ford_page
                         else if u = ''https://pdx.example/d/deal/2.html'' then Inr deal_page
                         else if u = ''https://pdx.example/d/none/'' then Inr blank_page
                         else if u = ''https://pdx.example/d/ford-f150-xlt/7654.html''
                           then Inr blank_page
                         else if u = ''https://pdx.example/search'' then Inr search_page
                         else Inl WebDriverException),
      url_join = (\<lambda>base href. href),
      title_of = ascii_title,
      clock = (\<lambda>i. ''2024-01-01 00:00:00'')\<rparr>"

definition pid_page :: element where
  "pid_page =
     container ''[data-pid]''
       [container ''a'' [anchor_element ''https://pdx.example/d/none/''],
        container ''a'' [anchor_element ''https://pdx.example/about''],
        container ''a'' [anchor_element ''https://pdx.example/d/none/'']]"

definition image_element :: "string \<Rightarrow> element" where
  "image_element alt =
     Element (Inr '''') (\<lambda>a. if a = ''alt'' then Inr (Some alt) else Inr None) (\<lambda>_ _. Inr [])"

definition listing_card :: "string \<Rightarrow> string \<Rightarrow> string \<Rightarrow> element" where
  "listing_card href price alt =
     Element (Inr '''') (\<lambda>a. if a = ''href'' then Inr (Some href) else Inr None)
       (\<lambda>b s. if b = By_XPATH \<and> s = price_xpath1 then Inr [text_element price]
              else if b = By_TAG_NAME \<and> s = ''img'' then Inr [image_element alt]
              else Inr [])"

definition marketplace_page :: element where
  "marketplace_page =
     container item_link_selector
       [listing_card ''https://www.facebook.com/marketplace/item/1/'' ''$5,000'' ''2015 Ford F-150'',
        listing_card ''https://www.facebook.com/marketplace/item/1/'' ''$6,000'' ''Another photo'',
        listing_card ''https://www.facebook.com/marketplace/item/2/'' ''Free'' ''2010 Toyota Tundra'']"

definition example_facebook_env :: facebook_env where
  "example_facebook_env =
     \<lparr>session_file_exists = True,
      setup_facebook_driver_ok = (\<lambda>headless. True),
      load_session_ok = (\<lambda>headless. True),
      get_ok = (\<lambda>url. True),
      snapshots = (\<lambda>k. marketplace_page),
      open_clicked = False,
      continue_clicked = False,
      fb_driver_ready = False,
      fb_driver_instance = False\<rparr>"

definition stale_facebook_env :: facebook_env where
  "stale_facebook_env = example_facebook_env\<lparr>snapshots := (\<lambda>k. blank_page)\<rparr>"

lemmas char_defs = isspace_def isdigit_def is_upper_def is_lower_def is_alpha_def to_lower_def
  ascii_to_upper_def ascii_uppercase_def ascii_lowercase_def latin1_uppercase_def
  latin1_lowercase_def re_digit_def

section \<open>Properties\<close>

text \<open>
  C6. The two lookup primitives return the stripped text, or the attribute, of
  the first matching element, and the empty string when the lookup raises, finds
  nothing, the text cannot be read, or the attribute is missing. Their result is
  a string in every case: no exception leaves them.
\<close>

theorem safe_find_element_C6:
  "(\<forall>element t. find_element driver (by_of_method method) selector = Inr element \<and>
        el_text element = Inr t \<longrightarrow>
        safe_find_element_text driver selector method = strip t)
   \<and> (\<forall>element e. find_element driver (by_of_method method) selector = Inr element \<and>
        el_text element = Inl e \<longrightarrow>
        safe_find_element_text driver selector method = '''')
   \<and> (\<forall>element v. find_element driver (by_of_method method) selector = Inr element \<and>
        get_attribute element attribute = Inr (Some v) \<longrightarrow>
        safe_find_element_attribute driver selector attribute method = v)
   \<and> (\<forall>element. find_element driver (by_of_method method) selector = Inr element \<and>
        get_attribute element attribute = Inr None \<longrightarrow>
        safe_find_element_attribute driver selector attribute method = '''')
   \<and> (\<forall>element e. find_element driver (by_of_method method) selector = Inr element \<and>
        get_attribute element attribute = Inl e \<longrightarrow>
        safe_find_element_attribute driver selector attribute method = '''')
   \<and> (find_elements driver (by_of_method method) selector = Inr [] \<longrightarrow>
        safe_find_element_text driver selector method = '''' \<and>
        safe_find_element_attribute driver selector attribute method = '''')
   \<and> (\<forall>e. find_elements driver (by_of_method method) selector = Inl e \<longrightarrow>
        safe_find_element_text driver selector method = '''' \<and>
        safe_find_element_attribute driver selector attribute method = '''')"
  by (simp add: safe_find_element_text_def safe_find_element_attribute_def find_element_def)

lemma ford_lookups:
  "find_element ford_page (by_of_method ''id'') ''#titletextonly'' = Inr (text_element '' 2021 Ford F-150 XLT '')"
  "find_element ford_page (by_of_method ''css'') ''.mapaddress a'' = Inr (anchor_element ''https://maps.example/x'')"
  "find_element ford_page (by_of_method ''css'') ''.attr.auto_vin .valu'' = Inr stale_element"
  "find_elements ford_page (by_of_method ''css'') ''.mapaddress'' = Inl WebDriverException"
  "find_elements ford_page (by_of_method ''css'') ''.attr.auto_miles .valu'' = Inr []"
  by (simp_all add: ford_page_def find_element_def by_of_method_def)

theorem safe_find_element_C6_witness:
  "safe_find_element_text ford_page ''#titletextonly'' ''id'' = ''2021 Ford F-150 XLT''
   \<and> safe_find_element_text ford_page ''.attr.auto_vin .valu'' ''css'' = ''''
   \<and> safe_find_element_attribute ford_page ''.mapaddress a'' ''href'' ''css'' = ''https://maps.example/x''
   \<and> safe_find_element_attribute ford_page ''.mapaddress a'' ''title'' ''css'' = ''''
   \<and> safe_find_element_attribute ford_page ''.attr.auto_vin .valu'' ''href'' ''css'' = ''''
   \<and> safe_find_element_text ford_page ''.attr.auto_miles .valu'' ''css'' = ''''
   \<and> safe_find_element_text ford_page ''.mapaddress'' ''css'' = ''''"
  using safe_find_element_C6 [of ford_page "''id''" "''#titletextonly''" "''href''"]
    safe_find_element_C6 [of ford_page "''css''" "''.attr.auto_vin .valu''" "''href''"]
    safe_find_element_C6 [of ford_page "''css''" "''.mapaddress a''" "''href''"]
    safe_find_element_C6 [of ford_page "''css''" "''.mapaddress a''" "''title''"]
    safe_find_element_C6 [of ford_page "''css''" "''.attr.auto_miles .valu''" "''href''"]
    safe_find_element_C6 [of ford_page "''css''" "''.mapaddress''" "''href''"]
  by (simp add: ford_lookups text_element_def anchor_element_def stale_element_def strip_def isspace_def)

text \<open>
  C3. With a count function that always returns 5 and at most 10 attempts, the
  controller runs three scrolls, leaves the loop at the stall limit in the turn
  that follows them (\<^verbatim>\<open>attempt\<close> is 3), and returns 5.
\<close>

theorem wait_and_scroll_constant_C3:
  "wait_and_scroll (\<lambda>_. 5) 10 =
     (5, \<lparr>polls = 5, scrolls = 3, attempt = 3, last_count = 5, no_change_count = 3,
          stalled = True\<rparr>)"
  by (simp add: wait_and_scroll_def scroll_start_def eval_nat_numeral)

subsection \<open>Dict updates\<close>

lemma map_of_set_item:
  "map_of (set_item d k v) k' = (if k' = k then Some (PyStr v) else map_of d k')"
  by (simp add: set_item_def update_conv')

lemma keys_set_item: "k \<in> set (map fst d) \<Longrightarrow> map fst (set_item d k v) = map fst d"
  by (simp add: set_item_def update_keys)

lemma vals_set_item:
  "str_valued d \<Longrightarrow> str_valued (set_item d k v)"
  unfolding set_item_def str_valued_def by (induction d) auto

lemma field_of_keys_vals:
  assumes "k \<in> set (map fst d)" and "str_valued d"
  shows "\<exists>s. map_of d k = Some (PyStr s)"
proof -
  from assms(1) obtain v where v: "map_of d k = Some v"
    by (metis map_of_eq_None_iff not_Some_eq set_map)
  then have "(k, v) \<in> set d" by (rule map_of_SomeD)
  then have "v \<in> snd ` set d" by force
  with assms(2) v show ?thesis by (auto simp: str_valued_def)
qed

subsection \<open>The blocks of the record builder\<close>

lemma keys_new_listing: "map fst (new_listing listing_url now) = listing_fields"
  by (simp add: new_listing_def listing_fields_def)

lemma vals_new_listing: "str_valued (new_listing listing_url now)"
  by (simp add: new_listing_def str_valued_def)

lemma in_listing_fields:
  "''title'' \<in> set listing_fields" "''year'' \<in> set listing_fields"
  "''make'' \<in> set listing_fields" "''model'' \<in> set listing_fields"
  "''price'' \<in> set listing_fields" "''vin'' \<in> set listing_fields"
  "''mileage'' \<in> set listing_fields" "''cylinders'' \<in> set listing_fields"
  "''drive'' \<in> set listing_fields" "''fuel'' \<in> set listing_fields"
  "''color'' \<in> set listing_fields" "''transmission'' \<in> set listing_fields"
  "''type'' \<in> set listing_fields" "''location'' \<in> set listing_fields"
  "''google_maps_link'' \<in> set listing_fields" "''date_posted'' \<in> set listing_fields"
  by (simp_all add: listing_fields_def)

lemma keys_set_item_fields:
  "map fst d = listing_fields \<Longrightarrow> k \<in> set listing_fields \<Longrightarrow>
   map fst (set_item d k v) = listing_fields"
  by (simp add: keys_set_item)

lemma keys_set_title:
  assumes "map fst d = listing_fields"
  shows "map fst (set_title str_title t u d) = listing_fields"
proof (cases "t = []")
  case True
  then show ?thesis
    using assms by (simp add: set_title_def keys_set_item_fields in_listing_fields)
next
  case False
  show ?thesis
  proof (cases "title_match t")
    case None
    with False show ?thesis
      using assms by (simp add: set_title_def keys_set_item_fields in_listing_fields)
  next
    case (Some g)
    obtain g1 g2 g3 where g: "g = (g1, g2, g3)" by (cases g) auto
    have "map fst (set_item (set_item (set_item (set_item d ''title'' t) ''year'' g1) ''make'' g2)
        ''model'' (strip g3)) = listing_fields"
      by (intro keys_set_item_fields in_listing_fields assms)
    with False Some g show ?thesis
      by (simp add: set_title_def)
  qed
qed

lemma keys_set_details:
  assumes "map fst d = listing_fields"
  shows "map fst (set_details driver d) = listing_fields"
  unfolding set_details_def Let_def
  by (intro keys_set_item_fields in_listing_fields assms)

lemma keys_set_location:
  "map fst d = listing_fields \<Longrightarrow> map fst (set_location driver d) = listing_fields"
  by (simp add: set_location_def Let_def keys_set_item_fields in_listing_fields)

lemma keys_set_google_maps_link:
  "map fst d = listing_fields \<Longrightarrow> map fst (set_google_maps_link driver d) = listing_fields"
  by (simp add: set_google_maps_link_def keys_set_item_fields in_listing_fields)

lemma keys_set_date_posted:
  "map fst d = listing_fields \<Longrightarrow> map fst (set_date_posted driver d) = listing_fields"
  by (simp add: set_date_posted_def Let_def keys_set_item_fields in_listing_fields)

lemma vals_set_title:
  "str_valued d \<Longrightarrow> str_valued (set_title str_title t u d)"
  unfolding set_title_def Let_def
  by (simp add: vals_set_item split: option.splits)

lemma vals_set_details:
  "str_valued d \<Longrightarrow> str_valued (set_details driver d)"
  unfolding set_details_def Let_def
  by (intro vals_set_item)

lemma vals_set_location:
  "str_valued d \<Longrightarrow> str_valued (set_location driver d)"
  unfolding set_location_def Let_def
  by (simp add: vals_set_item)

lemma vals_set_google_maps_link:
  "str_valued d \<Longrightarrow>
   str_valued (set_google_maps_link driver d)"
  unfolding set_google_maps_link_def
  by (rule vals_set_item)

lemma vals_set_date_posted:
  "str_valued d \<Longrightarrow>
   str_valued (set_date_posted driver d)"
  unfolding set_date_posted_def Let_def
  by (simp add: vals_set_item)

lemma extract_listing_details_unfold:
  "get listing_url = Inr driver \<Longrightarrow>
   extract_listing_details get str_title now listing_url =
     Some (set_date_posted driver (set_google_maps_link driver (set_location driver
       (set_details driver (set_title str_title (find_title driver) listing_url
          (new_listing listing_url now))))))"
  by (simp add: extract_listing_details_def)

lemma extract_listing_details_None:
  "get listing_url = Inl e \<Longrightarrow> extract_listing_details get str_title now listing_url = None"
  by (simp add: extract_listing_details_def)

lemma extract_listing_details_keys:
  assumes "extract_listing_details get str_title now listing_url = Some d"
  shows "map fst d = listing_fields"
proof (cases "get listing_url")
  case (Inl e)
  with assms show ?thesis by (simp add: extract_listing_details_None)
next
  case (Inr driver)
  with assms show ?thesis
    by (auto simp: extract_listing_details_unfold
        intro!: keys_set_date_posted keys_set_google_maps_link keys_set_location
          keys_set_details keys_set_title keys_new_listing)
qed

lemma extract_listing_details_vals:
  assumes "extract_listing_details get str_title now listing_url = Some d"
  shows "str_valued d"
proof (cases "get listing_url")
  case (Inl e)
  with assms show ?thesis by (simp add: extract_listing_details_None)
next
  case (Inr driver)
  have "str_valued (set_date_posted driver (set_google_maps_link driver (set_location driver
       (set_details driver (set_title str_title (find_title driver) listing_url
          (new_listing listing_url now))))))"
    by (intro vals_set_date_posted vals_set_google_maps_link vals_set_location
          vals_set_details vals_set_title vals_new_listing)
  with assms Inr show ?thesis
    by (simp add: extract_listing_details_unfold)
qed

lemma extract_listing_details_strs:
  assumes "extract_listing_details get str_title now listing_url = Some d" and "k \<in> set listing_fields"
  shows "\<exists>s. map_of d k = Some (PyStr s)"
  using field_of_keys_vals [of k d] extract_listing_details_keys [OF assms(1)]
    extract_listing_details_vals [OF assms(1)] assms(2)
  by simp

lemmas lookup_defs = safe_find_element_text_def safe_find_element_attribute_def find_element_def
  by_of_method_def

lemma title_match_ford: "title_match ''2021 Ford F-150 XLT'' = Some (''2021'', ''Ford'', ''F-150 XLT'')"
  by code_simp

lemma title_match_deal: "title_match ''Great Deal Truck'' = None"
  by code_simp

lemma find_title_ford: "find_title ford_page = ''2021 Ford F-150 XLT''"
  by (simp add: find_title_def lookup_defs ford_page_def text_element_def strip_def isspace_def)

lemma find_title_deal: "find_title deal_page = ''Great Deal Truck''"
  by (simp add: find_title_def lookup_defs deal_page_def container_def text_element_def strip_def isspace_def)

lemma frame_set_details:
  "k \<notin> {''price'', ''vin'', ''mileage'', ''cylinders'', ''drive'', ''fuel'', ''color'',
         ''transmission'', ''type''} \<Longrightarrow>
   map_of (set_details driver d) k = map_of d k"
  by (simp add: set_details_def Let_def map_of_set_item)

lemma frame_set_location:
  "k \<noteq> ''location'' \<Longrightarrow> map_of (set_location driver d) k = map_of d k"
  by (simp add: set_location_def Let_def map_of_set_item)

lemma frame_set_google_maps_link:
  "k \<noteq> ''google_maps_link'' \<Longrightarrow> map_of (set_google_maps_link driver d) k = map_of d k"
  by (simp add: set_google_maps_link_def map_of_set_item)

lemma frame_set_date_posted:
  "k \<noteq> ''date_posted'' \<Longrightarrow> map_of (set_date_posted driver d) k = map_of d k"
  by (simp add: set_date_posted_def Let_def map_of_set_item)

lemma title_fields:
  assumes "k \<in> {''title'', ''year'', ''make'', ''model'', ''url''}"
    and "get listing_url = Inr driver"
    and "extract_listing_details get str_title now listing_url = Some d"
  shows "map_of d k = map_of (set_title str_title (find_title driver) listing_url (new_listing listing_url now)) k"
proof -
  have d: "d = set_date_posted driver (set_google_maps_link driver (set_location driver
       (set_details driver (set_title str_title (find_title driver) listing_url
          (new_listing listing_url now)))))"
    using assms(2,3) by (simp add: extract_listing_details_unfold)
  have "map_of d k = map_of (set_google_maps_link driver (set_location driver
       (set_details driver (set_title str_title (find_title driver) listing_url
          (new_listing listing_url now))))) k"
    unfolding d using assms(1) by (intro frame_set_date_posted) auto
  also have "\<dots> = map_of (set_location driver
       (set_details driver (set_title str_title (find_title driver) listing_url
          (new_listing listing_url now)))) k"
    using assms(1) by (intro frame_set_google_maps_link) auto
  also have "\<dots> = map_of (set_details driver (set_title str_title (find_title driver) listing_url
          (new_listing listing_url now))) k"
    using assms(1) by (intro frame_set_location) auto
  also have "\<dots> = map_of (set_title str_title (find_title driver) listing_url
          (new_listing listing_url now)) k"
    using assms(1) by (intro frame_set_details) auto
  finally show ?thesis .
qed

lemma set_title_ford:
  "map_of (set_title str_title ''2021 Ford F-150 XLT'' u (new_listing u now)) ''title'' = Some (PyStr ''2021 Ford F-150 XLT'')"
  "map_of (set_title str_title ''2021 Ford F-150 XLT'' u (new_listing u now)) ''year'' = Some (PyStr ''2021'')"
  "map_of (set_title str_title ''2021 Ford F-150 XLT'' u (new_listing u now)) ''make'' = Some (PyStr ''Ford'')"
  "map_of (set_title str_title ''2021 Ford F-150 XLT'' u (new_listing u now)) ''model'' = Some (PyStr ''F-150 XLT'')"
  by (simp_all add: set_title_def title_match_ford map_of_set_item strip_def isspace_def)

lemma set_title_deal:
  "map_of (set_title str_title ''Great Deal Truck'' u (new_listing u now)) ''title'' = Some (PyStr ''Great Deal Truck'')"
  "map_of (set_title str_title ''Great Deal Truck'' u (new_listing u now)) ''year'' = Some (PyStr '''')"
  "map_of (set_title str_title ''Great Deal Truck'' u (new_listing u now)) ''make'' = Some (PyStr '''')"
  "map_of (set_title str_title ''Great Deal Truck'' u (new_listing u now)) ''model'' = Some (PyStr '''')"
  by (simp_all add: set_title_def title_match_deal map_of_set_item new_listing_def)

lemma takeWhile_short:
  assumes "\<not> (4 \<le> length t \<and> (\<forall>c\<in>set (take 4 t). P c))"
  shows "length (takeWhile P t) < 4"
proof (rule ccontr)
  assume "\<not> length (takeWhile P t) < 4"
  then have n: "4 \<le> length (takeWhile P t)" by simp
  have len: "4 \<le> length t"
    using n length_takeWhile_le [of P t] by linarith
  have "take 4 t = take 4 (take (length (takeWhile P t)) t)"
    using n by (simp add: min_def)
  also have "\<dots> = take 4 (takeWhile P t)"
    by (simp add: takeWhile_eq_take [symmetric])
  finally have "set (take 4 t) \<subseteq> set (takeWhile P t)"
    by (simp add: set_take_subset)
  then have "\<forall>c\<in>set (take 4 t). P c"
    using set_takeWhileD by fastforce
  with len assms show False by blast
qed

lemma title_match_no_year:
  assumes "\<not> (4 \<le> length t \<and> (\<forall>c\<in>set (take 4 t). re_digit c))"
  shows "title_match t = None"
proof -
  have "length (takeWhile re_digit t) < 4"
    using assms by (rule takeWhile_short)
  then have "re_match title_re t = None"
    by (simp add: title_re_def Let_def)
  then show ?thesis by (simp add: title_match_def)
qed

lemma set_title_no_match:
  assumes "t \<noteq> []" and "title_match t = None"
  shows "map_of (set_title str_title t u (new_listing u now)) ''title'' = Some (PyStr t)"
    and "map_of (set_title str_title t u (new_listing u now)) ''year'' = Some (PyStr [])"
    and "map_of (set_title str_title t u (new_listing u now)) ''make'' = Some (PyStr [])"
    and "map_of (set_title str_title t u (new_listing u now)) ''model'' = Some (PyStr [])"
  using assms by (simp_all add: set_title_def map_of_set_item new_listing_def)

lemma deal_no_year:
  "\<not> (4 \<le> length ''Great Deal Truck'' \<and> (\<forall>c\<in>set (take 4 ''Great Deal Truck''). re_digit c))"
  by (simp add: re_digit_def)

text \<open>
  C7. The title \<^verbatim>\<open>2021 Ford F-150 XLT\<close> matches with the groups \<^verbatim>\<open>2021\<close>, \<^verbatim>\<open>Ford\<close>
  and \<^verbatim>\<open>F-150 XLT\<close>, and a page with that title gives a record with that title and
  those year, make and model. No title that does not begin with four digits
  matches, and a page with such a title gives a record with that title unchanged
  and empty year, make and model; \<^verbatim>\<open>Great Deal Truck\<close> is one of them.
\<close>

theorem title_parsing_C7:
  "title_match ''2021 Ford F-150 XLT'' = Some (''2021'', ''Ford'', ''F-150 XLT'')
   \<and> title_match ''Great Deal Truck'' = None
   \<and> (get listing_url = Inr driver \<and> find_title driver = ''2021 Ford F-150 XLT'' \<longrightarrow>
        (\<exists>d. extract_listing_details get str_title now listing_url = Some d \<and>
             map_of d ''title'' = Some (PyStr ''2021 Ford F-150 XLT'') \<and>
             map_of d ''year'' = Some (PyStr ''2021'') \<and>
             map_of d ''make'' = Some (PyStr ''Ford'') \<and>
             map_of d ''model'' = Some (PyStr ''F-150 XLT'')))
   \<and> (get listing_url = Inr driver \<and> find_title driver = ''Great Deal Truck'' \<longrightarrow>
        (\<exists>d. extract_listing_details get str_title now listing_url = Some d \<and>
             map_of d ''title'' = Some (PyStr ''Great Deal Truck'') \<and>
             map_of d ''year'' = Some (PyStr '''') \<and>
             map_of d ''make'' = Some (PyStr '''') \<and>
             map_of d ''model'' = Some (PyStr '''')))
   \<and> (\<forall>t. \<not> (4 \<le> length t \<and> (\<forall>c\<in>set (take 4 t). re_digit c)) \<longrightarrow> title_match t = None)
   \<and> (\<forall>t. t \<noteq> '''' \<and> \<not> (4 \<le> length t \<and> (\<forall>c\<in>set (take 4 t). re_digit c)) \<and>
          get listing_url = Inr driver \<and> find_title driver = t \<longrightarrow>
        (\<exists>d. extract_listing_details get str_title now listing_url = Some d \<and>
             map_of d ''title'' = Some (PyStr t) \<and>
             map_of d ''year'' = Some (PyStr '''') \<and>
             map_of d ''make'' = Some (PyStr '''') \<and>
             map_of d ''model'' = Some (PyStr '''')))"
proof -
  have built: "\<exists>d. extract_listing_details get str_title now listing_url = Some d \<and>
      map_of d ''title'' = map_of (set_title str_title (find_title driver) listing_url
           (new_listing listing_url now)) ''title'' \<and>
      map_of d ''year'' = map_of (set_title str_title (find_title driver) listing_url
           (new_listing listing_url now)) ''year'' \<and>
      map_of d ''make'' = map_of (set_title str_title (find_title driver) listing_url
           (new_listing listing_url now)) ''make'' \<and>
      map_of d ''model'' = map_of (set_title str_title (find_title driver) listing_url
           (new_listing listing_url now)) ''model''"
    if g: "get listing_url = Inr driver"
  proof -
    from g obtain d where d: "extract_listing_details get str_title now listing_url = Some d"
      by (simp add: extract_listing_details_unfold)
    have "map_of d k = map_of (set_title str_title (find_title driver) listing_url
           (new_listing listing_url now)) k"
      if "k \<in> {''title'', ''year'', ''make'', ''model''}" for k
      using title_fields [OF _ g d, of k] that by blast
    with d show ?thesis by blast
  qed
  have general: "\<exists>d. extract_listing_details get str_title now listing_url = Some d \<and>
             map_of d ''title'' = Some (PyStr t) \<and>
             map_of d ''year'' = Some (PyStr []) \<and>
             map_of d ''make'' = Some (PyStr []) \<and>
             map_of d ''model'' = Some (PyStr [])"
    if "t \<noteq> []" and "\<not> (4 \<le> length t \<and> (\<forall>c\<in>set (take 4 t). re_digit c))"
      and g: "get listing_url = Inr driver" and f: "find_title driver = t" for t
  proof -
    have m: "title_match t = None"
      using that(2) by (rule title_match_no_year)
    from built [OF g] show ?thesis
      unfolding f by (simp add: set_title_no_match [OF that(1) m])
  qed
  have ford: "\<exists>d. extract_listing_details get str_title now listing_url = Some d \<and>
             map_of d ''title'' = Some (PyStr ''2021 Ford F-150 XLT'') \<and>
             map_of d ''year'' = Some (PyStr ''2021'') \<and>
             map_of d ''make'' = Some (PyStr ''Ford'') \<and>
             map_of d ''model'' = Some (PyStr ''F-150 XLT'')"
    if g: "get listing_url = Inr driver" and f: "find_title driver = ''2021 Ford F-150 XLT''"
    using built [OF g] unfolding f by (simp add: set_title_ford)
  have deal: "\<exists>d. extract_listing_details get str_title now listing_url = Some d \<and>
             map_of d ''title'' = Some (PyStr ''Great Deal Truck'') \<and>
             map_of d ''year'' = Some (PyStr []) \<and>
             map_of d ''make'' = Some (PyStr []) \<and>
             map_of d ''model'' = Some (PyStr [])"
    if g: "get listing_url = Inr driver" and f: "find_title driver = ''Great Deal Truck''"
    using general [OF _ deal_no_year g f] by simp
  show ?thesis
    using title_match_ford title_match_deal ford deal general title_match_no_year
    by blast
qed

theorem title_parsing_C7_witness:
  "(\<exists>d. extract_listing_details (driver_get example_env) (title_of example_env) ''now''
          ''https://pdx.example/d/ford/1.html'' = Some d \<and>
        map_of d ''title'' = Some (PyStr ''2021 Ford F-150 XLT'') \<and>
        map_of d ''year'' = Some (PyStr ''2021'') \<and>
        map_of d ''make'' = Some (PyStr ''Ford'') \<and>
        map_of d ''model'' = Some (PyStr ''F-150 XLT''))
   \<and> (\<exists>d. extract_listing_details (driver_get example_env) (title_of example_env) ''now''
          ''https://pdx.example/d/deal/2.html'' = Some d \<and>
        map_of d ''title'' = Some (PyStr ''Great Deal Truck'') \<and>
        map_of d ''year'' = Some (PyStr '''') \<and>
        map_of d ''make'' = Some (PyStr '''') \<and>
        map_of d ''model'' = Some (PyStr ''''))"
proof -
  have g1: "driver_get example_env ''https://pdx.example/d/ford/1.html'' = Inr ford_page"
    and g2: "driver_get example_env ''https://pdx.example/d/deal/2.html'' = Inr deal_page"
    by (simp_all add: example_env_def)
  note c7 = title_parsing_C7 [where get = "driver_get example_env"
      and str_title = "title_of example_env" and now = "''now''"]
  have a: "\<exists>d. extract_listing_details (driver_get example_env) (title_of example_env) ''now''
          ''https://pdx.example/d/ford/1.html'' = Some d \<and>
        map_of d ''title'' = Some (PyStr ''2021 Ford F-150 XLT'') \<and>
        map_of d ''year'' = Some (PyStr ''2021'') \<and>
        map_of d ''make'' = Some (PyStr ''Ford'') \<and>
        map_of d ''model'' = Some (PyStr ''F-150 XLT'')"
    by (rule c7 [where listing_url = "''https://pdx.example/d/ford/1.html''" and driver = ford_page,
        THEN conjunct2, THEN conjunct2, THEN conjunct1, THEN mp, OF conjI [OF g1 find_title_ford]])
  have nonempty: "''Great Deal Truck'' \<noteq> []" by simp
  have b: "\<exists>d. extract_listing_details (driver_get example_env) (title_of example_env) ''now''
          ''https://pdx.example/d/deal/2.html'' = Some d \<and>
        map_of d ''title'' = Some (PyStr ''Great Deal Truck'') \<and>
        map_of d ''year'' = Some (PyStr '''') \<and>
        map_of d ''make'' = Some (PyStr '''') \<and>
        map_of d ''model'' = Some (PyStr '''')"
    by (rule c7 [where listing_url = "''https://pdx.example/d/deal/2.html''" and driver = deal_page,
        THEN conjunct2, THEN conjunct2, THEN conjunct2, THEN conjunct2, THEN conjunct2,
        THEN spec, THEN mp,
        OF conjI [OF nonempty conjI [OF deal_no_year conjI [OF g2 find_title_deal]]]])
  from a b show ?thesis by (rule conjI)
qed

lemma set_details_each:
  "map_of (set_details driver d) ''price'' =
     Some (PyStr (safe_find_element_text driver ''.price'' ''css''))"
  "map_of (set_details driver d) ''vin'' =
     Some (PyStr (safe_find_element_text driver ''.attr.auto_vin .valu'' ''css''))"
  "map_of (set_details driver d) ''mileage'' =
     Some (PyStr (safe_find_element_text driver ''.attr.auto_miles .valu'' ''css''))"
  "map_of (set_details driver d) ''cylinders'' =
     Some (PyStr (safe_find_element_text driver ''.attr.auto_cylinders .valu'' ''css''))"
  "map_of (set_details driver d) ''drive'' =
     Some (PyStr (safe_find_element_text driver ''.attr.auto_drivetrain .valu'' ''css''))"
  "map_of (set_details driver d) ''fuel'' =
     Some (PyStr (safe_find_element_text driver ''.attr.auto_fuel_type .valu'' ''css''))"
  "map_of (set_details driver d) ''color'' =
     Some (PyStr (safe_find_element_text driver ''.attr.auto_paint .valu'' ''css''))"
  "map_of (set_details driver d) ''transmission'' =
     Some (PyStr (safe_find_element_text driver ''.attr.auto_transmission .valu'' ''css''))"
  "map_of (set_details driver d) ''type'' =
     Some (PyStr (safe_find_element_text driver ''.attr.auto_bodytype .valu'' ''css''))"
  by (simp_all add: set_details_def Let_def map_of_set_item)

lemma set_details_fields:
  "(k, sel) \<in> set detail_selectors \<Longrightarrow>
   map_of (set_details driver d) k = Some (PyStr (safe_find_element_text driver sel ''css''))"
  unfolding detail_selectors_def
  by (elim disjE | simp only: set_simps insert_iff empty_iff Pair_inject)+
     (simp_all add: set_details_each)

lemma detail_fields:
  assumes "(k, sel) \<in> set detail_selectors"
    and "get listing_url = Inr driver"
    and "extract_listing_details get str_title now listing_url = Some d"
  shows "map_of d k = Some (PyStr (safe_find_element_text driver sel ''css''))"
proof -
  have k: "k \<noteq> ''date_posted''" "k \<noteq> ''google_maps_link''" "k \<noteq> ''location''"
    using assms(1) by (auto simp: detail_selectors_def)
  have d: "d = set_date_posted driver (set_google_maps_link driver (set_location driver
       (set_details driver (set_title str_title (find_title driver) listing_url
          (new_listing listing_url now)))))"
    using assms(2,3) by (simp add: extract_listing_details_unfold)
  show ?thesis
    unfolding d
    by (simp add: frame_set_date_posted frame_set_google_maps_link frame_set_location k
        set_details_fields [OF assms(1)])
qed

subsection \<open>The visiting loop\<close>

lemma truthy_iff: "map_of d k = Some (PyStr s) \<Longrightarrow> truthy d k = (s \<noteq> '''')"
  by (simp add: truthy_def)

lemma visit_step_append: "visit_step env acc iu = acc @ visit_step env [] iu"
  by (simp add: visit_step_def split: option.splits)

lemma foldl_visit_step:
  "foldl (visit_step env) acc ius = acc @ concat (map (visit_step env []) ius)"
proof (induction ius arbitrary: acc)
  case Nil
  then show ?case by simp
next
  case (Cons iu ius)
  have "foldl (visit_step env) acc (iu # ius) = foldl (visit_step env) (visit_step env acc iu) ius"
    by simp
  also have "\<dots> = visit_step env acc iu @ concat (map (visit_step env []) ius)"
    by (rule Cons.IH)
  also have "\<dots> = acc @ concat (map (visit_step env []) (iu # ius))"
    using visit_step_append [of env acc iu] by simp
  finally show ?case .
qed

lemma visit_step_None:
  "extract_listing_details (driver_get env) (title_of env) (clock env i) url = None \<Longrightarrow>
   visit_step env acc (i, url) = acc"
  by (simp add: visit_step_def)

lemma visit_step_Some:
  assumes "extract_listing_details (driver_get env) (title_of env) (clock env i) url = Some d"
    and "map_of d ''title'' = Some (PyStr t)" and "map_of d ''price'' = Some (PyStr p)"
    and "map_of d ''vin'' = Some (PyStr v)"
  shows "visit_step env acc (i, url) = (if t \<noteq> '''' \<or> p \<noteq> '''' \<or> v \<noteq> '''' then acc @ [d] else acc)"
proof -
  have "d \<noteq> []" using assms(2) by auto
  then show ?thesis
    using assms by (simp add: visit_step_def truthy_iff)
qed

lemma set_title_title:
  "map_of (set_title str_title t u d) ''title'' =
     Some (PyStr (if t \<noteq> [] then t
                  else str_title (replace (replace (last_segment u) ''.html'' []) ''-'' '' '')))"
proof (cases "t = []")
  case True
  then show ?thesis by (simp add: set_title_def map_of_set_item)
next
  case False
  show ?thesis
  proof (cases "title_match t")
    case None
    with False show ?thesis by (simp add: set_title_def map_of_set_item)
  next
    case (Some g)
    obtain g1 g2 g3 where "g = (g1, g2, g3)" by (cases g) auto
    with False Some show ?thesis by (simp add: set_title_def map_of_set_item)
  qed
qed

lemma built_fields:
  assumes g: "get listing_url = Inr driver"
  shows "\<exists>d. extract_listing_details get str_title now listing_url = Some d \<and>
      map_of d ''title'' =
        Some (PyStr (if find_title driver \<noteq> [] then find_title driver
           else str_title (replace (replace (last_segment listing_url) ''.html'' []) ''-'' '' ''))) \<and>
      map_of d ''price'' = Some (PyStr (safe_find_element_text driver ''.price'' ''css'')) \<and>
      map_of d ''vin'' = Some (PyStr (safe_find_element_text driver ''.attr.auto_vin .valu'' ''css''))"
proof -
  from g obtain d where d: "extract_listing_details get str_title now listing_url = Some d"
    by (simp add: extract_listing_details_unfold)
  have t: "map_of d ''title'' =
        Some (PyStr (if find_title driver \<noteq> [] then find_title driver
           else str_title (replace (replace (last_segment listing_url) ''.html'' []) ''-'' '' '')))"
    using title_fields [OF _ g d, of "''title''"] by (simp add: set_title_title)
  have p: "map_of d ''price'' = Some (PyStr (safe_find_element_text driver ''.price'' ''css''))"
    using detail_fields [OF _ g d, of "''price''" "''.price''"]
    by (simp add: detail_selectors_def)
  have v: "map_of d ''vin'' =
      Some (PyStr (safe_find_element_text driver ''.attr.auto_vin .valu'' ''css''))"
    using detail_fields [OF _ g d, of "''vin''" "''.attr.auto_vin .valu''"]
    by (simp add: detail_selectors_def)
  from d t p v show ?thesis by blast
qed

lemma visit_step_page:
  assumes g: "driver_get env url = Inr driver"
  shows "\<exists>d. extract_listing_details (driver_get env) (title_of env) (clock env i) url = Some d \<and>
    visit_step env acc (i, url) =
      (if find_title driver \<noteq> [] \<or>
          title_of env (replace (replace (last_segment url) ''.html'' []) ''-'' '' '') \<noteq> [] \<or>
          safe_find_element_text driver ''.price'' ''css'' \<noteq> [] \<or>
          safe_find_element_text driver ''.attr.auto_vin .valu'' ''css'' \<noteq> []
       then acc @ [d] else acc)"
proof -
  from built_fields [where get = "driver_get env" and listing_url = url and driver = driver
      and str_title = "title_of env" and now = "clock env i", OF g] obtain d where
    d: "extract_listing_details (driver_get env) (title_of env) (clock env i) url = Some d"
    and t: "map_of d ''title'' =
        Some (PyStr (if find_title driver \<noteq> [] then find_title driver
           else title_of env (replace (replace (last_segment url) ''.html'' []) ''-'' '' '')))"
    and p: "map_of d ''price'' = Some (PyStr (safe_find_element_text driver ''.price'' ''css''))"
    and v: "map_of d ''vin'' =
      Some (PyStr (safe_find_element_text driver ''.attr.auto_vin .valu'' ''css''))"
    by blast
  have "visit_step env acc (i, url) =
      (if find_title driver \<noteq> [] \<or>
          title_of env (replace (replace (last_segment url) ''.html'' []) ''-'' '' '') \<noteq> [] \<or>
          safe_find_element_text driver ''.price'' ''css'' \<noteq> [] \<or>
          safe_find_element_text driver ''.attr.auto_vin .valu'' ''css'' \<noteq> []
       then acc @ [d] else acc)"
    unfolding visit_step_Some [OF d t p v] by auto
  with d show ?thesis by blast
qed

text \<open>
  C2, as amended. One turn of the visiting loop appends a record exactly when the
  builder returned one whose title, price or vin field is not empty, and the
  record it appends is the one built; otherwise the list is unchanged, and a
  failed build appends nothing. The title field holds the title found on the page
  or, when the page has none, the title made from the last segment of the URL.
  So for a page that loads, a record is appended exactly when the page yields a
  title, a price or a vin, or the title made from the URL is not empty. The loop
  is the sequence of these turns over the URLs with their indices.
\<close>

theorem minimum_signal_C2:
  "((\<exists>d. visit_step env all_listings (i, url) = all_listings @ [d]) \<longleftrightarrow>
      (\<exists>d t p v. extract_listing_details (driver_get env) (title_of env) (clock env i) url = Some d \<and>
         map_of d ''title'' = Some (PyStr t) \<and> map_of d ''price'' = Some (PyStr p) \<and>
         map_of d ''vin'' = Some (PyStr v) \<and> (t \<noteq> '''' \<or> p \<noteq> '''' \<or> v \<noteq> '''')))
   \<and> (\<forall>d. visit_step env all_listings (i, url) = all_listings @ [d] \<longrightarrow>
         extract_listing_details (driver_get env) (title_of env) (clock env i) url = Some d)
   \<and> ((\<nexists>d. visit_step env all_listings (i, url) = all_listings @ [d]) \<longrightarrow>
         visit_step env all_listings (i, url) = all_listings)
   \<and> (\<forall>d. extract_listing_details (driver_get env) (title_of env) (clock env i) url = Some d \<and>
         map_of d ''title'' = Some (PyStr '''') \<and> map_of d ''price'' = Some (PyStr '''') \<and>
         map_of d ''vin'' = Some (PyStr '''') \<longrightarrow>
         visit_step env all_listings (i, url) = all_listings)
   \<and> (\<forall>d p. extract_listing_details (driver_get env) (title_of env) (clock env i) url = Some d \<and>
         map_of d ''price'' = Some (PyStr p) \<and> p \<noteq> '''' \<longrightarrow>
         visit_step env all_listings (i, url) = all_listings @ [d])
   \<and> visit_listings env listing_urls =
       concat (map (visit_step env []) (zip [0 ..< length listing_urls] listing_urls))
   \<and> (\<forall>driver. driver_get env url = Inr driver \<longrightarrow>
         ((\<exists>d. visit_step env all_listings (i, url) = all_listings @ [d]) \<longleftrightarrow>
          (find_title driver \<noteq> '''' \<or>
           title_of env (replace (replace (last_segment url) ''.html'' '''') ''-'' '' '') \<noteq> '''' \<or>
           safe_find_element_text driver ''.price'' ''css'' \<noteq> '''' \<or>
           safe_find_element_text driver ''.attr.auto_vin .valu'' ''css'' \<noteq> '''')))
   \<and> (\<forall>e. driver_get env url = Inl e \<longrightarrow> visit_step env all_listings (i, url) = all_listings)"
proof -
  let ?r = "extract_listing_details (driver_get env) (title_of env) (clock env i) url"
  have loop: "visit_listings env listing_urls =
       concat (map (visit_step env []) (zip [0 ..< length listing_urls] listing_urls))"
    by (simp add: visit_listings_def foldl_visit_step)
  have page: "(\<exists>d. visit_step env all_listings (i, url) = all_listings @ [d]) \<longleftrightarrow>
          (find_title driver \<noteq> [] \<or>
           title_of env (replace (replace (last_segment url) ''.html'' []) ''-'' '' '') \<noteq> [] \<or>
           safe_find_element_text driver ''.price'' ''css'' \<noteq> [] \<or>
           safe_find_element_text driver ''.attr.auto_vin .valu'' ''css'' \<noteq> [])"
    if "driver_get env url = Inr driver" for driver
    using visit_step_page [OF that, of i all_listings] by auto
  have failed: "visit_step env all_listings (i, url) = all_listings"
    if "driver_get env url = Inl e" for e
    using that by (simp add: visit_step_None extract_listing_details_None)
  have turn: "((\<exists>d. visit_step env all_listings (i, url) = all_listings @ [d]) \<longleftrightarrow>
      (\<exists>d t p v. ?r = Some d \<and>
         map_of d ''title'' = Some (PyStr t) \<and> map_of d ''price'' = Some (PyStr p) \<and>
         map_of d ''vin'' = Some (PyStr v) \<and> (t \<noteq> [] \<or> p \<noteq> [] \<or> v \<noteq> [])))
   \<and> (\<forall>d. visit_step env all_listings (i, url) = all_listings @ [d] \<longrightarrow> ?r = Some d)
   \<and> ((\<nexists>d. visit_step env all_listings (i, url) = all_listings @ [d]) \<longrightarrow>
         visit_step env all_listings (i, url) = all_listings)
   \<and> (\<forall>d. ?r = Some d \<and>
         map_of d ''title'' = Some (PyStr []) \<and> map_of d ''price'' = Some (PyStr []) \<and>
         map_of d ''vin'' = Some (PyStr []) \<longrightarrow>
         visit_step env all_listings (i, url) = all_listings)
   \<and> (\<forall>d p. ?r = Some d \<and> map_of d ''price'' = Some (PyStr p) \<and> p \<noteq> [] \<longrightarrow>
         visit_step env all_listings (i, url) = all_listings @ [d])"
  proof (cases ?r)
    case None
    then show ?thesis
      by (simp add: visit_step_None)
  next
    case (Some d)
    obtain t where t: "map_of d ''title'' = Some (PyStr t)"
      using extract_listing_details_strs [OF Some, of "''title''"] in_listing_fields by blast
    obtain p where p: "map_of d ''price'' = Some (PyStr p)"
      using extract_listing_details_strs [OF Some, of "''price''"] in_listing_fields by blast
    obtain v where v: "map_of d ''vin'' = Some (PyStr v)"
      using extract_listing_details_strs [OF Some, of "''vin''"] in_listing_fields by blast
    have step: "visit_step env all_listings (i, url) =
        (if t \<noteq> [] \<or> p \<noteq> [] \<or> v \<noteq> [] then all_listings @ [d] else all_listings)"
      by (rule visit_step_Some [OF Some t p v])
    show ?thesis
      unfolding step using Some t p v by auto
  qed
  from turn loop page failed show ?thesis by blast
qed

lemma example_env_get:
  "driver_get example_env ''https://pdx.example/d/ford/1.html'' = Inr ford_page"
  "driver_get example_env ''https://pdx.example/d/deal/2.html'' = Inr deal_page"
  "driver_get example_env ''https://pdx.example/d/none/'' = Inr blank_page"
  "driver_get example_env ''https://pdx.example/d/ford-f150-xlt/7654.html'' = Inr blank_page"
  by (simp_all add: example_env_def)

lemma example_env_title: "title_of example_env = ascii_title"
  by (simp add: example_env_def)

lemma ford_price: "safe_find_element_text ford_page ''.price'' ''css'' = ''$5,000''"
  by (simp add: lookup_defs ford_page_def text_element_def strip_def isspace_def)

lemma blank_lookups:
  "safe_find_element_text blank_page sel m = []"
  "safe_find_element_attribute blank_page sel a m = []"
  by (simp_all add: lookup_defs blank_page_def)

lemma find_title_blank: "find_title blank_page = []"
  by (simp add: find_title_def blank_lookups)

lemma blank_url_title:
  "ascii_title (replace (replace (last_segment ''https://pdx.example/d/none/'') ''.html'' []) ''-'' '' '') = []"
  by (simp add: last_segment_def ascii_title_def)

lemma numbered_url_title:
  "ascii_title (replace (replace (last_segment ''https://pdx.example/d/ford-f150-xlt/7654.html'')
     ''.html'' []) ''-'' '' '') = ''7654''"
  by (simp add: last_segment_def ascii_title_def char_defs)

theorem minimum_signal_C2_witness:
  "(\<exists>d. visit_step example_env [] (0, ''https://pdx.example/d/ford/1.html'') = [d])
   \<and> visit_step example_env [] (1, ''https://pdx.example/d/none/'') = []"
proof -
  note c2 = minimum_signal_C2 [where env = example_env and all_listings = "[]"]
  have "safe_find_element_text ford_page ''.price'' ''css'' \<noteq> []"
    by (simp add: ford_price)
  then have "\<exists>d. visit_step example_env [] (0, ''https://pdx.example/d/ford/1.html'') = [] @ [d]"
    using c2 [where i = 0 and url = "''https://pdx.example/d/ford/1.html''"] example_env_get(1)
    by blast
  then have a: "\<exists>d. visit_step example_env [] (0, ''https://pdx.example/d/ford/1.html'') = [d]"
    by simp
  have "\<not> (find_title blank_page \<noteq> [] \<or>
           title_of example_env
             (replace (replace (last_segment ''https://pdx.example/d/none/'') ''.html'' []) ''-'' '' '') \<noteq> [] \<or>
           safe_find_element_text blank_page ''.price'' ''css'' \<noteq> [] \<or>
           safe_find_element_text blank_page ''.attr.auto_vin .valu'' ''css'' \<noteq> [])"
    by (simp add: find_title_blank blank_lookups example_env_title blank_url_title)
  then have b: "visit_step example_env [] (1, ''https://pdx.example/d/none/'') = []"
    using c2 [where i = 1 and url = "''https://pdx.example/d/none/''"] example_env_get(3)
    by blast
  from a b show ?thesis by (rule conjI)
qed

text \<open>
  The claim as it is written fails: the page at
  \<^verbatim>\<open>https://pdx.example/d/ford-f150-xlt/7654.html\<close> yields no title, no price and no
  vin, and the loop appends a record for it, with the title \<^verbatim>\<open>7654\<close> made from the
  URL.
\<close>

theorem minimum_signal_C2_counterexample:
  "driver_get example_env ''https://pdx.example/d/ford-f150-xlt/7654.html'' = Inr blank_page
   \<and> find_title blank_page = ''''
   \<and> safe_find_element_text blank_page ''.price'' ''css'' = ''''
   \<and> safe_find_element_text blank_page ''.attr.auto_vin .valu'' ''css'' = ''''
   \<and> length (visit_step example_env [] (0, ''https://pdx.example/d/ford-f150-xlt/7654.html'')) = 1
   \<and> map_of (hd (visit_step example_env [] (0, ''https://pdx.example/d/ford-f150-xlt/7654.html'')))
        ''title'' = Some (PyStr ''7654'')"
proof -
  from visit_step_page [OF example_env_get(4), of 0 "[]"] obtain d where
    d: "extract_listing_details (driver_get example_env) (title_of example_env)
          (clock example_env 0) ''https://pdx.example/d/ford-f150-xlt/7654.html'' = Some d"
    and s: "visit_step example_env [] (0, ''https://pdx.example/d/ford-f150-xlt/7654.html'') = [d]"
    by (auto simp: example_env_title numbered_url_title)
  have "map_of d ''title'' = Some (PyStr ''7654'')"
    using title_fields [where get = "driver_get example_env" and driver = blank_page
        and k = "''title''", OF _ example_env_get(4) d]
    by (simp add: set_title_title find_title_blank example_env_title numbered_url_title)
  with s show ?thesis
    by (simp add: example_env_get find_title_blank blank_lookups)
qed




subsection \<open>The discoverer\<close>

lemma set_first_seen: "set (first_seen xs) = set xs"
  by (induction xs) auto

lemma distinct_first_seen: "distinct (first_seen xs)"
  by (induction xs) (auto simp: set_first_seen)

lemma scan_containers_step:
  "scan_containers urljoin search_url acc (result # results) =
     (case container_url urljoin search_url result of
        None \<Rightarrow> scan_containers urljoin search_url acc results
      | Some u \<Rightarrow>
          if u \<in> set acc then scan_containers urljoin search_url acc results
          else scan_containers urljoin search_url (acc @ [u]) results)"
  by (simp add: container_url_def Let_def split: sum.splits)

lemma scan_containers_first_seen:
  "scan_containers urljoin search_url acc results =
     acc @ filter (\<lambda>u. u \<notin> set acc)
             (first_seen (List.map_filter (container_url urljoin search_url) results))"
proof (induction results arbitrary: acc)
  case Nil
  show ?case by (simp add: List.map_filter_simps)
next
  case (Cons result results)
  let ?rest = "first_seen (List.map_filter (container_url urljoin search_url) results)"
  show ?case
  proof (cases "container_url urljoin search_url result")
    case None
    then show ?thesis
      using Cons.IH [of acc] by (simp add: scan_containers_step List.map_filter_simps del: scan_containers.simps)
  next
    case (Some u)
    show ?thesis
    proof (cases "u \<in> set acc")
      case True
      have "filter (\<lambda>y. y \<notin> set acc) (filter (\<lambda>y. y \<noteq> u) ?rest) = filter (\<lambda>y. y \<notin> set acc) ?rest"
        using True by (auto intro: filter_cong)
      then show ?thesis
        using Some True Cons.IH [of acc]
        by (simp add: scan_containers_step List.map_filter_simps del: scan_containers.simps)
    next
      case False
      have "filter (\<lambda>y. y \<notin> set (acc @ [u])) ?rest = filter (\<lambda>y. y \<notin> set acc) (filter (\<lambda>y. y \<noteq> u) ?rest)"
        by (auto intro: filter_cong)
      then show ?thesis
        using Some False Cons.IH [of "acc @ [u]"]
        by (simp add: scan_containers_step List.map_filter_simps del: scan_containers.simps)
    qed
  qed
qed

lemma scan_containers_distinct:
  "distinct acc \<Longrightarrow> distinct (scan_containers urljoin search_url acc results)"
  by (auto simp: scan_containers_first_seen distinct_first_seen)

lemma first_new_link_new:
  "first_new_link urljoin search_url acc links = Inr (Some u) \<Longrightarrow> u \<notin> set acc"
  by (induction links) (auto simp: Let_def split: sum.splits if_splits)

lemma scan_result_nodes_appends:
  "\<exists>new. scan_result_nodes urljoin search_url acc nodes = acc @ new"
proof (induction nodes arbitrary: acc)
  case Nil
  show ?case by simp
next
  case (Cons node nodes)
  show ?case
  proof (cases "find_elements node By_CSS_SELECTOR ''a.cl-app-anchor''")
    case (Inl e)
    then show ?thesis using Cons.IH [of acc] by simp
  next
    case (Inr links)
    show ?thesis
    proof (cases "first_new_link urljoin search_url acc links")
      case (Inl e)
      with Inr show ?thesis using Cons.IH [of acc] by simp
    next
      case r: (Inr o1)
      show ?thesis
      proof (cases o1)
        case None
        with Inr r show ?thesis using Cons.IH [of acc] by simp
      next
        case (Some u)
        from Cons.IH [of "acc @ [u]"] obtain new where
          "scan_result_nodes urljoin search_url (acc @ [u]) nodes = (acc @ [u]) @ new" by blast
        with Inr r Some show ?thesis by simp
      qed
    qed
  qed
qed

lemma scan_result_nodes_distinct:
  "distinct acc \<Longrightarrow> distinct (scan_result_nodes urljoin search_url acc nodes)"
proof (induction nodes arbitrary: acc)
  case Nil
  then show ?case by simp
next
  case (Cons node nodes)
  show ?case
  proof (cases "find_elements node By_CSS_SELECTOR ''a.cl-app-anchor''")
    case (Inl e)
    then show ?thesis using Cons by simp
  next
    case (Inr links)
    show ?thesis
    proof (cases "first_new_link urljoin search_url acc links")
      case (Inl e)
      with Inr show ?thesis using Cons by simp
    next
      case r: (Inr o1)
      show ?thesis
      proof (cases o1)
        case None
        with Inr r show ?thesis using Cons by simp
      next
        case (Some u)
        then have "u \<notin> set acc" using r first_new_link_new by blast
        then have "distinct (acc @ [u])" using Cons.prems by simp
        from Cons.IH [OF this] Inr r Some show ?thesis by simp
      qed
    qed
  qed
qed

lemma extract_listing_urls_distinct:
  "distinct (fst (extract_listing_urls urljoin driver search_url))"
  by (auto simp: extract_listing_urls_def Let_def scan_result_nodes_distinct
      scan_containers_distinct split: sum.splits)

text \<open>
  C5. The discovery looks up the containers of the second strategy only when the
  first strategy has found no URL, and those of the third only when the first and
  the second have found none. When the first strategy finds a URL, the result is
  its result and no other container lookup is made; the same holds for the second
  strategy after an empty first one.
\<close>

theorem escalation_C5:
  "((By_CSS_SELECTOR, ''.cl-search-result'') \<in> set (snd (extract_listing_urls urljoin driver search_url)) \<longrightarrow>
      (\<exists>nodes. find_elements driver By_CLASS_NAME ''result-node'' = Inr nodes \<and>
         scan_result_nodes urljoin search_url [] nodes = []))
   \<and> ((By_CSS_SELECTOR, ''[data-pid]'') \<in> set (snd (extract_listing_urls urljoin driver search_url)) \<longrightarrow>
      (\<exists>nodes results. find_elements driver By_CLASS_NAME ''result-node'' = Inr nodes \<and>
         scan_result_nodes urljoin search_url [] nodes = [] \<and>
         find_elements driver By_CSS_SELECTOR ''.cl-search-result'' = Inr results \<and>
         scan_containers urljoin search_url [] results = []))
   \<and> (\<forall>nodes. find_elements driver By_CLASS_NAME ''result-node'' = Inr nodes \<and>
         scan_result_nodes urljoin search_url [] nodes \<noteq> [] \<longrightarrow>
         extract_listing_urls urljoin driver search_url =
           (scan_result_nodes urljoin search_url [] nodes, [(By_CLASS_NAME, ''result-node'')]))
   \<and> (\<forall>nodes results. find_elements driver By_CLASS_NAME ''result-node'' = Inr nodes \<and>
         scan_result_nodes urljoin search_url [] nodes = [] \<and>
         find_elements driver By_CSS_SELECTOR ''.cl-search-result'' = Inr results \<and>
         scan_containers urljoin search_url [] results \<noteq> [] \<longrightarrow>
         extract_listing_urls urljoin driver search_url =
           (scan_containers urljoin search_url [] results,
            [(By_CLASS_NAME, ''result-node''), (By_CSS_SELECTOR, ''.cl-search-result'')]))"
  by (simp add: extract_listing_urls_def Let_def split: sum.splits)

lemma search_page_nodes:
  "find_elements search_page By_CLASS_NAME ''result-node'' =
     Inr [container ''a.cl-app-anchor''
            [anchor_element ''https://pdx.example/d/ford/1.html'',
             anchor_element ''https://pdx.example/d/other/9.html''],
          container ''a.cl-app-anchor''
            [anchor_element ''https://pdx.example/d/ford/1.html'',
             anchor_element ''https://pdx.example/d/deal/2.html'']]"
  by (simp add: search_page_def container_def)

lemma search_page_scan:
  "scan_result_nodes (\<lambda>base href. href) ''https://pdx.example/search'' []
     [container ''a.cl-app-anchor''
        [anchor_element ''https://pdx.example/d/ford/1.html'',
         anchor_element ''https://pdx.example/d/other/9.html''],
      container ''a.cl-app-anchor''
        [anchor_element ''https://pdx.example/d/ford/1.html'',
         anchor_element ''https://pdx.example/d/deal/2.html'']] =
   [''https://pdx.example/d/ford/1.html'', ''https://pdx.example/d/deal/2.html'']"
  by (simp add: container_def anchor_element_def is_detail_href_def Let_def)

lemma pid_page_urls:
  "extract_listing_urls (\<lambda>base href. href) pid_page ''https://pdx.example/search'' =
     ([''https://pdx.example/d/none/''],
      [(By_CLASS_NAME, ''result-node''), (By_CSS_SELECTOR, ''.cl-search-result''),
       (By_CSS_SELECTOR, ''[data-pid]'')])"
  by (simp add: extract_listing_urls_def pid_page_def container_def anchor_element_def
      find_element_def is_detail_href_def Let_def)

theorem escalation_C5_witness:
  "extract_listing_urls (\<lambda>base href. href) search_page ''https://pdx.example/search'' =
     ([''https://pdx.example/d/ford/1.html'', ''https://pdx.example/d/deal/2.html''],
      [(By_CLASS_NAME, ''result-node'')])
   \<and> (\<exists>nodes results.
         find_elements pid_page By_CLASS_NAME ''result-node'' = Inr nodes \<and>
         scan_result_nodes (\<lambda>base href. href) ''https://pdx.example/search'' [] nodes = [] \<and>
         find_elements pid_page By_CSS_SELECTOR ''.cl-search-result'' = Inr results \<and>
         scan_containers (\<lambda>base href. href) ''https://pdx.example/search'' [] results = [])"
proof -
  note first = escalation_C5 [of "\<lambda>base href. href" search_page "''https://pdx.example/search''",
      THEN conjunct2, THEN conjunct2, THEN conjunct1, rule_format]
  have a: "extract_listing_urls (\<lambda>base href. href) search_page ''https://pdx.example/search'' =
     ([''https://pdx.example/d/ford/1.html'', ''https://pdx.example/d/deal/2.html''],
      [(By_CLASS_NAME, ''result-node'')])"
    using first [OF conjI [OF search_page_nodes]] by (simp only: search_page_scan) simp
  have mem: "(By_CSS_SELECTOR, ''[data-pid]'') \<in>
      set (snd (extract_listing_urls (\<lambda>base href. href) pid_page ''https://pdx.example/search''))"
    by (simp add: pid_page_urls)
  have b: "\<exists>nodes results.
         find_elements pid_page By_CLASS_NAME ''result-node'' = Inr nodes \<and>
         scan_result_nodes (\<lambda>base href. href) ''https://pdx.example/search'' [] nodes = [] \<and>
         find_elements pid_page By_CSS_SELECTOR ''.cl-search-result'' = Inr results \<and>
         scan_containers (\<lambda>base href. href) ''https://pdx.example/search'' [] results = []"
    by (rule escalation_C5 [of "\<lambda>base href. href" pid_page "''https://pdx.example/search''",
      THEN conjunct2, THEN conjunct1, THEN mp, OF mem])
  from a b show ?thesis by (rule conjI)
qed

subsection \<open>The bulk extraction\<close>




lemma str_set_item:
  "\<exists>s. map_of d k = Some (PyStr s) \<Longrightarrow> \<exists>s. map_of (set_item d k' v) k = Some (PyStr s)"
  by (simp add: map_of_set_item)

text \<open>What a block may do to a dict: keep its keys, and store strings.\<close>

lemma extract_price_cases:
  "extract_price link d = d \<or>
   (\<exists>es p. price_elements link = Inr es \<and> pick_price es = Inr (Some p) \<and>
      extract_price link d = set_item d ''price'' p)"
  by (auto simp: extract_price_def split: sum.splits option.splits)

lemma extract_title_cases:
  "extract_title link d = d \<or> (\<exists>t. extract_title link d = set_item d ''title'' t)"
  by (auto simp: extract_title_def split: sum.splits option.splits list.splits)

lemma pick_location_cases:
  "pick_location es d = Inr d' \<Longrightarrow>
   d' = d \<or> (\<exists>t. d' = set_item d ''mileage'' t) \<or> (\<exists>t. d' = set_item d ''location'' t)"
  by (induction es) (auto simp: Let_def split: sum.splits if_splits)

lemma extract_location_mileage_cases:
  "extract_location_mileage link d = d
   \<or> (\<exists>t. extract_location_mileage link d = set_item d ''mileage'' t)
   \<or> (\<exists>t. extract_location_mileage link d = set_item d ''location'' t)
   \<or> (\<exists>t m. extract_location_mileage link d = set_item (set_item d ''location'' t) ''mileage'' m)
   \<or> (\<exists>t m. extract_location_mileage link d = set_item (set_item d ''mileage'' t) ''mileage'' m)"
proof (cases "find_elements link By_XPATH location_xpath")
  case (Inl e)
  then show ?thesis by (simp add: extract_location_mileage_def)
next
  case (Inr es)
  show ?thesis
  proof (cases "pick_location es d")
    case (Inl e)
    with Inr show ?thesis by (simp add: extract_location_mileage_def)
  next
    case r: (Inr d')
    from pick_location_cases [OF r] Inr r show ?thesis
      by (auto simp: extract_location_mileage_def split: sum.splits option.splits if_splits)
  qed
qed


lemma build_listing_frame:
  assumes "k \<notin> {''price'', ''title'', ''mileage'', ''location''}"
  shows "map_of (build_listing link url) k = map_of (facebook_listing url) k"
proof -
  have 1: "map_of (extract_price link d) k = map_of d k" for d
    using extract_price_cases [of link d] assms by (auto simp: map_of_set_item)
  have 2: "map_of (extract_title link d) k = map_of d k" for d
    using extract_title_cases [of link d] assms by (auto simp: map_of_set_item)
  have 3: "map_of (extract_location_mileage link d) k = map_of d k" for d
    using extract_location_mileage_cases [of link d] assms by (auto simp: map_of_set_item)
  show ?thesis by (simp add: build_listing_def 1 2 3)
qed

lemma build_listing_url: "map_of (build_listing link url) ''url'' = Some (pyval_of url)"
  using build_listing_frame [of "''url''" link url] by (simp add: facebook_listing_def)


lemma pick_price_shape:
  "pick_price es = Inr (Some p) \<Longrightarrow>
   startswith p ''$'' \<and> (\<exists>c\<in>set p. isdigit c) \<and> 1 < length p \<and> length p < 30"
  by (induction es) (auto simp: Let_def split: sum.splits if_splits)

lemma build_listing_price:
  "map_of (build_listing link url) ''price'' = Some (PyStr ''N/A'') \<or>
   (\<exists>es p. price_elements link = Inr es \<and> pick_price es = Inr (Some p) \<and>
      map_of (build_listing link url) ''price'' = Some (PyStr p))"
proof -
  have 2: "map_of (extract_title link d) ''price'' = map_of d ''price''" for d
    using extract_title_cases [of link d] by (auto simp: map_of_set_item)
  have 3: "map_of (extract_location_mileage link d) ''price'' = map_of d ''price''" for d
    using extract_location_mileage_cases [of link d] by (auto simp: map_of_set_item)
  have "map_of (build_listing link url) ''price'' =
      map_of (extract_price link (facebook_listing url)) ''price''"
    by (simp add: build_listing_def 2 3)
  then show ?thesis
    using extract_price_cases [of link "facebook_listing url"]
    by (auto simp: map_of_set_item facebook_listing_def)
qed

lemma extract_links_members:
  "d \<in> set (extract_links seen links) \<Longrightarrow>
   \<exists>link\<in>set links. \<exists>url. get_attribute link ''href'' = Inr url \<and> d = build_listing link url"
  by (induction links arbitrary: seen) (auto split: sum.splits if_splits)

lemma extract_all_listings_members:
  "d \<in> set (extract_all_listings driver) \<Longrightarrow> \<exists>link url. d = build_listing link url"
  using extract_links_members
  by (fastforce simp: extract_all_listings_def split: sum.splits)

lemma marketplace_page_listings:
  "extract_all_listings marketplace_page =
     [[(''url'', PyStr ''https://www.facebook.com/marketplace/item/1/''),
       (''title'', PyStr ''2015 Ford F-150''),
       (''price'', PyStr ''$5,000''),
       (''mileage'', PyStr ''N/A''),
       (''location'', PyStr ''N/A'')],
      [(''url'', PyStr ''https://www.facebook.com/marketplace/item/2/''),
       (''title'', PyStr ''2010 Toyota Tundra''),
       (''price'', PyStr ''N/A''),
       (''mileage'', PyStr ''N/A''),
       (''location'', PyStr ''N/A'')]]"
  by code_simp

text \<open>
  C10. In every record of the bulk extraction the price is a string, and when it
  is not the sentinel \<^verbatim>\<open>N/A\<close> it starts with \<^verbatim>\<open>$\<close>, contains a digit, and has more
  than 1 and fewer than 30 characters.
\<close>

theorem facebook_price_C10:
  "\<forall>d\<in>set (extract_all_listings driver).
     \<exists>p. map_of d ''price'' = Some (PyStr p) \<and>
       (p \<noteq> ''N/A'' \<longrightarrow>
          startswith p ''$'' \<and> (\<exists>c\<in>set p. isdigit c) \<and> 1 < length p \<and> length p < 30)"
proof
  fix d
  assume "d \<in> set (extract_all_listings driver)"
  then obtain link url where d: "d = build_listing link url"
    using extract_all_listings_members by blast
  from build_listing_price [of link url] show
    "\<exists>p. map_of d ''price'' = Some (PyStr p) \<and>
       (p \<noteq> ''N/A'' \<longrightarrow>
          startswith p ''$'' \<and> (\<exists>c\<in>set p. isdigit c) \<and> 1 < length p \<and> length p < 30)"
  proof
    assume "map_of (build_listing link url) ''price'' = Some (PyStr ''N/A'')"
    then show ?thesis unfolding d by simp
  next
    assume "\<exists>es p. price_elements link = Inr es \<and> pick_price es = Inr (Some p) \<and>
      map_of (build_listing link url) ''price'' = Some (PyStr p)"
    then obtain es p where "pick_price es = Inr (Some p)"
      and "map_of (build_listing link url) ''price'' = Some (PyStr p)" by blast
    then show ?thesis
      unfolding d using pick_price_shape [of es p] by simp
  qed
qed

theorem facebook_price_C10_witness:
  "startswith ''$5,000'' ''$'' \<and> (\<exists>c\<in>set ''$5,000''. isdigit c) \<and>
   1 < length ''$5,000'' \<and> length ''$5,000'' < 30"
proof -
  let ?d = "[(''url'', PyStr ''https://www.facebook.com/marketplace/item/1/''),
       (''title'', PyStr ''2015 Ford F-150''),
       (''price'', PyStr ''$5,000''),
       (''mileage'', PyStr ''N/A''),
       (''location'', PyStr ''N/A'')]"
  have mem: "?d \<in> set (extract_all_listings marketplace_page)"
    by (simp add: marketplace_page_listings)
  from facebook_price_C10 [of marketplace_page, THEN bspec, OF mem]
  obtain p where p: "map_of ?d ''price'' = Some (PyStr p)"
    and shape: "p \<noteq> ''N/A'' \<longrightarrow>
          startswith p ''$'' \<and> (\<exists>c\<in>set p. isdigit c) \<and> 1 < length p \<and> length p < 30"
    by blast
  from p have "p = ''$5,000''" by simp
  with shape show ?thesis by simp
qed

subsection \<open>Duplicates\<close>

lemma extract_links_step:
  "extract_links seen (link # links) =
     (case link_href link of
        None \<Rightarrow> extract_links seen links
      | Some url \<Rightarrow>
          if url \<in> seen then extract_links seen links
          else build_listing link url # extract_links (insert url seen) links)"
  by (simp add: link_href_def split: sum.splits)

lemma extract_links_urls:
  "map (\<lambda>d. map_of d ''url'') (extract_links seen links) =
     map (\<lambda>u. Some (pyval_of u))
       (filter (\<lambda>u. u \<notin> seen) (first_seen (List.map_filter link_href links)))"
proof (induction links arbitrary: seen)
  case Nil
  show ?case by (simp add: List.map_filter_simps)
next
  case (Cons link links)
  let ?rest = "first_seen (List.map_filter link_href links)"
  show ?case
  proof (cases "link_href link")
    case None
    then show ?thesis
      using Cons.IH [of seen]
      by (simp add: extract_links_step List.map_filter_simps del: extract_links.simps)
  next
    case (Some url)
    show ?thesis
    proof (cases "url \<in> seen")
      case True
      have "filter (\<lambda>y. y \<notin> seen) (filter (\<lambda>y. y \<noteq> url) ?rest) = filter (\<lambda>y. y \<notin> seen) ?rest"
        using True by (auto intro: filter_cong)
      then show ?thesis
        using Some True Cons.IH [of seen]
        by (simp add: extract_links_step List.map_filter_simps del: extract_links.simps)
    next
      case False
      have "filter (\<lambda>y. y \<notin> insert url seen) ?rest =
          filter (\<lambda>y. y \<notin> seen) (filter (\<lambda>y. y \<noteq> url) ?rest)"
        by (auto intro: filter_cong)
      then show ?thesis
        using Some False Cons.IH [of "insert url seen"]
        by (simp add: extract_links_step List.map_filter_simps build_listing_url
            del: extract_links.simps)
    qed
  qed
qed

lemma pyval_of_inject: "pyval_of a = pyval_of b \<longleftrightarrow> a = b"
  by (simp add: pyval_of_def split: option.splits)

lemma extract_links_distinct:
  "distinct (map (\<lambda>d. map_of d ''url'') (extract_links seen links))"
proof -
  have "inj (\<lambda>u. Some (pyval_of u))"
    by (rule injI) (simp add: pyval_of_inject)
  then show ?thesis
    unfolding extract_links_urls
    by (simp add: distinct_map distinct_first_seen inj_on_def)
qed

lemma extract_links_append:
  "extract_links seen (xs @ ys) =
     extract_links seen xs @
     extract_links (seen \<union> {u. \<exists>l\<in>set xs. get_attribute l ''href'' = Inr u}) ys"
proof (induction xs arbitrary: seen)
  case Nil
  show ?case by simp
next
  case (Cons x xs)
  show ?case
  proof (cases "get_attribute x ''href''")
    case (Inl e)
    have "seen \<union> {u. \<exists>l\<in>set (x # xs). get_attribute l ''href'' = Inr u} =
        seen \<union> {u. \<exists>l\<in>set xs. get_attribute l ''href'' = Inr u}"
      using Inl by auto
    then show ?thesis using Inl Cons.IH [of seen] by simp
  next
    case (Inr url)
    show ?thesis
    proof (cases "url \<in> seen")
      case True
      have "seen \<union> {u. \<exists>l\<in>set (x # xs). get_attribute l ''href'' = Inr u} =
          seen \<union> {u. \<exists>l\<in>set xs. get_attribute l ''href'' = Inr u}"
        using Inr True by auto
      then show ?thesis using Inr True Cons.IH [of seen] by simp
    next
      case False
      have "seen \<union> {u. \<exists>l\<in>set (x # xs). get_attribute l ''href'' = Inr u} =
          insert url seen \<union> {u. \<exists>l\<in>set xs. get_attribute l ''href'' = Inr u}"
        using Inr by auto
      then show ?thesis using Inr False Cons.IH [of "insert url seen"] by simp
    qed
  qed
qed

lemma extract_links_url_new:
  "d \<in> set (extract_links seen links) \<Longrightarrow>
   \<exists>u. u \<notin> seen \<and> map_of d ''url'' = Some (pyval_of u) \<and>
       (\<exists>l\<in>set links. get_attribute l ''href'' = Inr u)"
proof (induction links arbitrary: seen)
  case Nil
  then show ?case by simp
next
  case (Cons x xs)
  show ?case
  proof (cases "get_attribute x ''href''")
    case (Inl e)
    with Cons.prems have "d \<in> set (extract_links seen xs)" by simp
    from Cons.IH [OF this] show ?thesis by auto
  next
    case (Inr url)
    show ?thesis
    proof (cases "url \<in> seen")
      case True
      with Inr Cons.prems have "d \<in> set (extract_links seen xs)" by simp
      from Cons.IH [OF this] show ?thesis by auto
    next
      case False
      with Inr Cons.prems have
        "d = build_listing x url \<or> d \<in> set (extract_links (insert url seen) xs)" by simp
      then show ?thesis
      proof
        assume "d = build_listing x url"
        then show ?thesis using False Inr by (auto simp: build_listing_url)
      next
        assume "d \<in> set (extract_links (insert url seen) xs)"
        from Cons.IH [OF this] show ?thesis by auto
      qed
    qed
  qed
qed

lemma first_link_wins:
  assumes "get_attribute l ''href'' = Inr u"
    and "\<forall>l'\<in>set pre. get_attribute l' ''href'' \<noteq> Inr u"
  shows "filter (\<lambda>d. map_of d ''url'' = Some (pyval_of u)) (extract_links {} (pre @ l # post)) =
     [build_listing l u]"
proof -
  let ?H = "{u. \<exists>l\<in>set pre. get_attribute l ''href'' = Inr u}"
  let ?P = "\<lambda>d. map_of d ''url'' = Some (pyval_of u)"
  have u: "u \<notin> ?H" using assms(2) by auto
  have split: "extract_links {} (pre @ l # post) =
      extract_links {} pre @ build_listing l u # extract_links (insert u ?H) post"
    using extract_links_append [of "{}" pre "l # post"] u assms(1) by simp
  have 1: "filter ?P (extract_links {} pre) = []"
  proof -
    have "\<not> ?P d" if "d \<in> set (extract_links {} pre)" for d
    proof -
      from extract_links_url_new [OF that] obtain u' where
        "map_of d ''url'' = Some (pyval_of u')" and "\<exists>l\<in>set pre. get_attribute l ''href'' = Inr u'"
        by blast
      with assms(2) show ?thesis by (auto simp: pyval_of_inject)
    qed
    then show ?thesis by (simp add: filter_empty_conv)
  qed
  have 2: "filter ?P (extract_links (insert u ?H) post) = []"
  proof -
    have "\<not> ?P d" if "d \<in> set (extract_links (insert u ?H) post)" for d
    proof -
      from extract_links_url_new [OF that] obtain u' where
        "u' \<notin> insert u ?H" and "map_of d ''url'' = Some (pyval_of u')"
        by blast
      then show ?thesis by (auto simp: pyval_of_inject)
    qed
    then show ?thesis by (simp add: filter_empty_conv)
  qed
  show ?thesis
    unfolding split by (simp add: 1 2 build_listing_url)
qed

lemma extract_all_listings_distinct:
  "distinct (map (\<lambda>d. map_of d ''url'') (extract_all_listings page))"
  by (simp add: extract_all_listings_def extract_links_distinct split: sum.splits)

text \<open>
  C8. The URL list of the discoverer has no duplicates, and its loops only append
  to it, so a URL keeps the place of its first appearance; for the second and
  third strategy the list is the containers' URLs with only the first occurrence
  of each kept. The URLs of the records of the bulk extraction are the links'
  URLs with only the first occurrence of each kept, so no two records share a
  URL; two links with the same URL give the one record built from the first, and
  in general the records with a given URL are exactly the one record built from the
  first link that has it. The discoverer and the extraction are functions of the
  page, so a second run over an unchanged page returns the same list.
\<close>

theorem url_dedup_C8:
  "distinct (fst (extract_listing_urls urljoin driver search_url))
   \<and> (\<exists>new. scan_result_nodes urljoin search_url acc nodes = acc @ new)
   \<and> scan_containers urljoin search_url [] results =
       first_seen (List.map_filter (container_url urljoin search_url) results)
   \<and> map (\<lambda>d. map_of d ''url'') (extract_links {} links) =
       map (\<lambda>u. Some (pyval_of u)) (first_seen (List.map_filter link_href links))
   \<and> distinct (map (\<lambda>d. map_of d ''url'') (extract_all_listings page))
   \<and> (\<forall>u. get_attribute l1 ''href'' = Inr u \<and> get_attribute l2 ''href'' = Inr u \<longrightarrow>
         extract_links {} [l1, l2] = [build_listing l1 u])
   \<and> (\<forall>u l pre post. get_attribute l ''href'' = Inr u \<and>
         (\<forall>l'\<in>set pre. get_attribute l' ''href'' \<noteq> Inr u) \<longrightarrow>
         filter (\<lambda>d. map_of d ''url'' = Some (pyval_of u)) (extract_links {} (pre @ l # post)) =
           [build_listing l u])"
proof -
  have a: "scan_containers urljoin search_url [] results =
       first_seen (List.map_filter (container_url urljoin search_url) results)"
    using scan_containers_first_seen [of urljoin search_url "[]" results] by simp
  have b: "map (\<lambda>d. map_of d ''url'') (extract_links {} links) =
       map (\<lambda>u. Some (pyval_of u)) (first_seen (List.map_filter link_href links))"
    using extract_links_urls [of "{}" links] by simp
  have c: "extract_links {} [l1, l2] = [build_listing l1 u]"
    if "get_attribute l1 ''href'' = Inr u" and "get_attribute l2 ''href'' = Inr u" for u
    using that by simp
  from a b c extract_listing_urls_distinct scan_result_nodes_appends
    extract_all_listings_distinct first_link_wins
  show ?thesis by blast
qed

lemma listing_card_href: "get_attribute (listing_card href price alt) ''href'' = Inr (Some href)"
  by (simp add: listing_card_def)

theorem url_dedup_C8_witness:
  "extract_links {}
     [listing_card ''https://www.facebook.com/marketplace/item/1/'' ''$5,000'' ''2015 Ford F-150'',
      listing_card ''https://www.facebook.com/marketplace/item/1/'' ''$6,000'' ''Another photo''] =
     [build_listing
        (listing_card ''https://www.facebook.com/marketplace/item/1/'' ''$5,000'' ''2015 Ford F-150'')
        (Some ''https://www.facebook.com/marketplace/item/1/'')]
   \<and> filter (\<lambda>d. map_of d ''url'' = Some (pyval_of (Some ''https://www.facebook.com/marketplace/item/2/'')))
       (extract_links {}
          ([listing_card ''https://www.facebook.com/marketplace/item/1/'' ''$5,000'' ''2015 Ford F-150''] @
           listing_card ''https://www.facebook.com/marketplace/item/2/'' ''Free'' ''2010 Toyota Tundra'' #
           [listing_card ''https://www.facebook.com/marketplace/item/2/'' ''$7,500'' ''Another photo''])) =
     [build_listing
        (listing_card ''https://www.facebook.com/marketplace/item/2/'' ''Free'' ''2010 Toyota Tundra'')
        (Some ''https://www.facebook.com/marketplace/item/2/'')]"
proof -
  have other: "\<forall>l'\<in>set [listing_card ''https://www.facebook.com/marketplace/item/1/'' ''$5,000''
        ''2015 Ford F-150''].
      get_attribute l' ''href'' \<noteq> Inr (Some ''https://www.facebook.com/marketplace/item/2/'')"
    by (simp add: listing_card_href)
  have a: "extract_links {}
     [listing_card ''https://www.facebook.com/marketplace/item/1/'' ''$5,000'' ''2015 Ford F-150'',
      listing_card ''https://www.facebook.com/marketplace/item/1/'' ''$6,000'' ''Another photo''] =
     [build_listing
        (listing_card ''https://www.facebook.com/marketplace/item/1/'' ''$5,000'' ''2015 Ford F-150'')
        (Some ''https://www.facebook.com/marketplace/item/1/'')]"
    by (rule url_dedup_C8 [THEN conjunct2, THEN conjunct2, THEN conjunct2, THEN conjunct2,
          THEN conjunct2, THEN conjunct1, THEN spec, THEN mp,
          OF conjI [OF listing_card_href listing_card_href]])
  have b: "filter (\<lambda>d. map_of d ''url'' = Some (pyval_of (Some ''https://www.facebook.com/marketplace/item/2/'')))
       (extract_links {}
          ([listing_card ''https://www.facebook.com/marketplace/item/1/'' ''$5,000'' ''2015 Ford F-150''] @
           listing_card ''https://www.facebook.com/marketplace/item/2/'' ''Free'' ''2010 Toyota Tundra'' #
           [listing_card ''https://www.facebook.com/marketplace/item/2/'' ''$7,500'' ''Another photo''])) =
     [build_listing
        (listing_card ''https://www.facebook.com/marketplace/item/2/'' ''Free'' ''2010 Toyota Tundra'')
        (Some ''https://www.facebook.com/marketplace/item/2/'')]"
    by (rule url_dedup_C8 [THEN conjunct2, THEN conjunct2, THEN conjunct2, THEN conjunct2,
          THEN conjunct2, THEN conjunct2, THEN spec, THEN spec, THEN spec, THEN spec, THEN mp,
          OF conjI [OF listing_card_href other]])
  from a b show ?thesis by (rule conjI)
qed

subsection \<open>The scroll loop\<close>




subsection \<open>The session replay\<close>

lemma headless_replay_stale:
  assumes "session_file_exists env" and "setup_facebook_driver_ok env True"
    and "load_session_ok env True" and "get_ok env marketplace_url"
    and "get_listing_count (snapshots env 0) = 0"
  shows "headless_replay env marketplace_url =
     Next (False, False, 1)
       [Setup_Driver True, Load_Session, Get marketplace_url, Count_Listings 0, Quit]"
  using assms by (simp add: headless_replay_def)

lemma visible_mode_events:
  "\<exists>rest. (\<exists>ls. visible_mode env marketplace_url ev0 = Returned ls (ev0 @ Login_Required # rest)
             \<or> (\<exists>b. visible_mode env marketplace_url ev0 = Next b (ev0 @ Login_Required # rest)))
     \<and> Login_Required \<notin> set rest \<and> Setup_Driver True \<notin> set rest \<and> Quit \<notin> set rest
     \<and> count_list rest Load_Session \<le> 1 \<and> (\<forall>n. Count_Listings n \<notin> set rest)"
proof (cases "open_clicked env \<and> setup_facebook_driver_ok env False")
  case opened: True
  show ?thesis
  proof (cases "get_ok env ''https://www.facebook.com''")
    case False
    with opened show ?thesis
      by (auto simp: visible_mode_def Let_def)
  next
    case ok: True
    show ?thesis
    proof (cases "continue_clicked env")
      case False
      with opened ok show ?thesis
        by (auto simp: visible_mode_def Let_def)
    next
      case True
      with opened ok show ?thesis
        by (cases "get_ok env marketplace_url") (auto simp: visible_mode_def Let_def)
    qed
  qed
next
  case closed: False
  show ?thesis
  proof (cases "open_clicked env")
    case True
    with closed have s: "\<not> setup_facebook_driver_ok env False" by simp
    show ?thesis
    proof (cases "fb_driver_ready env")
      case False
      with True s show ?thesis by (auto simp: visible_mode_def Let_def)
    next
      case ready: True
      show ?thesis
      proof (cases "continue_clicked env")
        case False
        with True s ready show ?thesis by (auto simp: visible_mode_def Let_def)
      next
        case c: True
        show ?thesis
        proof (cases "fb_driver_instance env")
          case False
          with True s ready c show ?thesis by (auto simp: visible_mode_def Let_def)
        next
          case i: True
          with True s ready c show ?thesis
            by (cases "get_ok env marketplace_url") (auto simp: visible_mode_def Let_def)
        qed
      qed
    qed
  next
    case o: False
    show ?thesis
    proof (cases "fb_driver_ready env")
      case False
      with o show ?thesis by (auto simp: visible_mode_def Let_def)
    next
      case ready: True
      show ?thesis
      proof (cases "continue_clicked env")
        case False
        with o ready show ?thesis by (auto simp: visible_mode_def Let_def)
      next
        case c: True
        show ?thesis
        proof (cases "fb_driver_instance env")
          case False
          with o ready c show ?thesis by (auto simp: visible_mode_def Let_def)
        next
          case i: True
          with o ready c show ?thesis
            by (cases "get_ok env marketplace_url") (auto simp: visible_mode_def Let_def)
        qed
      qed
    qed
  qed
qed

text \<open>
  C9. A session file exists, the headless driver starts, \<^verbatim>\<open>load_session\<close> returns
  \<^verbatim>\<open>True\<close>, the marketplace page loads, and the probe \<^verbatim>\<open>get_listing_count\<close> gives 0.
  Then the run starts the headless driver, replays the session, loads the page,
  counts no listing, quits the driver and enters the visible mode with its login
  instructions; after that it never shows the instructions again, never starts a
  headless driver again, never quits a driver and never repeats the probe. The
  only later \<^verbatim>\<open>load_session\<close> is the single call in the visible browser, made when
  the button that opens it was pressed.
\<close>

theorem session_fallback_C9:
  "session_file_exists env \<and> setup_facebook_driver_ok env True \<and> load_session_ok env True \<and>
   get_ok env marketplace_url \<and> get_listing_count (snapshots env 0) = 0 \<longrightarrow>
   (\<exists>rest. snd (scrape_facebook_marketplace env marketplace_url max_scroll_attempts) =
        [Setup_Driver True, Load_Session, Get marketplace_url, Count_Listings 0, Quit,
         Login_Required] @ rest
      \<and> Login_Required \<notin> set rest \<and> Setup_Driver True \<notin> set rest \<and> Quit \<notin> set rest
      \<and> count_list rest Load_Session \<le> 1 \<and> (\<forall>n. Count_Listings n \<notin> set rest))"
proof
  assume h: "session_file_exists env \<and> setup_facebook_driver_ok env True \<and>
    load_session_ok env True \<and> get_ok env marketplace_url \<and>
    get_listing_count (snapshots env 0) = 0"
  let ?ev0 = "[Setup_Driver True, Load_Session, Get marketplace_url, Count_Listings 0, Quit]"
  have hr: "headless_replay env marketplace_url = Next (False, False, 1) ?ev0"
    using h by (intro headless_replay_stale) auto
  from visible_mode_events [of env marketplace_url ?ev0] obtain rest where
    v: "(\<exists>ls. visible_mode env marketplace_url ?ev0 = Returned ls (?ev0 @ Login_Required # rest))
        \<or> (\<exists>b. visible_mode env marketplace_url ?ev0 = Next b (?ev0 @ Login_Required # rest))"
    and r: "Login_Required \<notin> set rest" "Setup_Driver True \<notin> set rest" "Quit \<notin> set rest"
      "count_list rest Load_Session \<le> 1" "\<forall>n. Count_Listings n \<notin> set rest"
    by blast
  have "snd (scrape_facebook_marketplace env marketplace_url max_scroll_attempts) =
      ?ev0 @ Login_Required # rest"
    using v by (auto simp: scrape_facebook_marketplace_def hr)
  with r show "\<exists>rest. snd (scrape_facebook_marketplace env marketplace_url max_scroll_attempts) =
        [Setup_Driver True, Load_Session, Get marketplace_url, Count_Listings 0, Quit,
         Login_Required] @ rest
      \<and> Login_Required \<notin> set rest \<and> Setup_Driver True \<notin> set rest \<and> Quit \<notin> set rest
      \<and> count_list rest Load_Session \<le> 1 \<and> (\<forall>n. Count_Listings n \<notin> set rest)"
    by auto
qed

lemma blank_count: "get_listing_count blank_page = 0"
  by (simp add: get_listing_count_def blank_page_def container_selectors_def)

theorem session_fallback_C9_witness:
  "\<exists>rest. snd (scrape_facebook_marketplace stale_facebook_env
        ''https://www.facebook.com/marketplace/search'' 15) =
        [Setup_Driver True, Load_Session, Get ''https://www.facebook.com/marketplace/search'',
         Count_Listings 0, Quit, Login_Required] @ rest
      \<and> Login_Required \<notin> set rest \<and> Setup_Driver True \<notin> set rest \<and> Quit \<notin> set rest
      \<and> count_list rest Load_Session \<le> 1 \<and> (\<forall>n. Count_Listings n \<notin> set rest)"
proof -
  have "session_file_exists stale_facebook_env \<and> setup_facebook_driver_ok stale_facebook_env True \<and>
    load_session_ok stale_facebook_env True \<and>
    get_ok stale_facebook_env ''https://www.facebook.com/marketplace/search'' \<and>
    get_listing_count (snapshots stale_facebook_env 0) = 0"
    by (simp add: stale_facebook_env_def example_facebook_env_def blank_count)
  then show ?thesis
    by (rule session_fallback_C9 [THEN mp])
qed

subsection \<open>The fields of the records\<close>
























end
